theory Spec2Isabelle
  imports Complex_Main "HOL-Library.Sublist" "HOL-Library.Multiset"
begin

section \<open>Exceptions and outcomes\<close>

text \<open>
  Python exceptions are values. An operation that can raise after it has already
  mutated its object returns an \<open>outcome\<close> together with the state it leaves behind.
\<close>

datatype error =
    ValueError string
  | FileNotFoundError string
  | IndexError
  | AttributeError string
  | KeyError string
  | TypeError string
  | IntegrityError string
  | PasswordError
  | OtherError string

datatype 'a outcome = Returns 'a | Raises error

fun str_of_error :: "error \<Rightarrow> string" where
  "str_of_error (ValueError m) = m"
| "str_of_error (FileNotFoundError m) = m"
| "str_of_error IndexError = ''list index out of range''"
| "str_of_error (AttributeError m) = m"
| "str_of_error (KeyError m) = m"
| "str_of_error (TypeError m) = m"
| "str_of_error (IntegrityError m) = m"
| "str_of_error PasswordError = ''invalid password''"
| "str_of_error (OtherError m) = m"

section \<open>PDF analysis models (models/pdf\_models.py)\<close>

datatype EncodingType =
    ASCII | UTF8 | UTF8_WITH_BOM | UTF16 | UTF16BE | UTF16LE
  | UTF16BE_WITH_BOM | UTF16LE_WITH_BOM | IDENTITY_H | WINANSI
  | MACROMAN | LATIN1 | CUSTOM | UNKNOWN

datatype PDFIssueType =
    PASSWORD_PROTECTED | DAMAGED | ENCRYPTED | MISSING_FONTS | EMBEDDED_FILES
  | JAVASCRIPT | FORM_FIELDS | DIGITAL_SIGNATURES | LARGE_SIZE | HIGH_COMPRESSION
  | SCANNED_IMAGE | WATERMARK | CUSTOM_METADATA | UNUSUAL_STRUCTURE
  | ENCODING_ISSUE | UTF16_ENCODING | MIXED_ENCODINGS

text \<open>\<open>issue.type.name\<close>: the member name of the enum.\<close>

fun issue_type_name :: "PDFIssueType \<Rightarrow> string" where
  "issue_type_name PASSWORD_PROTECTED = ''PASSWORD_PROTECTED''"
| "issue_type_name DAMAGED = ''DAMAGED''"
| "issue_type_name ENCRYPTED = ''ENCRYPTED''"
| "issue_type_name MISSING_FONTS = ''MISSING_FONTS''"
| "issue_type_name EMBEDDED_FILES = ''EMBEDDED_FILES''"
| "issue_type_name JAVASCRIPT = ''JAVASCRIPT''"
| "issue_type_name FORM_FIELDS = ''FORM_FIELDS''"
| "issue_type_name DIGITAL_SIGNATURES = ''DIGITAL_SIGNATURES''"
| "issue_type_name LARGE_SIZE = ''LARGE_SIZE''"
| "issue_type_name HIGH_COMPRESSION = ''HIGH_COMPRESSION''"
| "issue_type_name SCANNED_IMAGE = ''SCANNED_IMAGE''"
| "issue_type_name WATERMARK = ''WATERMARK''"
| "issue_type_name CUSTOM_METADATA = ''CUSTOM_METADATA''"
| "issue_type_name UNUSUAL_STRUCTURE = ''UNUSUAL_STRUCTURE''"
| "issue_type_name ENCODING_ISSUE = ''ENCODING_ISSUE''"
| "issue_type_name UTF16_ENCODING = ''UTF16_ENCODING''"
| "issue_type_name MIXED_ENCODINGS = ''MIXED_ENCODINGS''"

record FontInfo =
  font_name :: string
  font_type :: string
  font_encoding :: EncodingType
  embedded :: bool
  subset :: bool

text \<open>
  \<open>PDFIssue\<close>: the severity is a plain Python string (\<open>"low"\<close>, \<open>"medium"\<close>,
  \<open>"high"\<close> by convention only), and the code compares it with \<open>== "high"\<close>.
\<close>

record PDFIssue =
  issue_type :: PDFIssueType
  description :: string
  severity :: string
  page_numbers :: "int list"
  details :: "(string \<times> string) list"

record PDFAnalysisResult =
  filepath :: string
  filesize :: int
  num_pages :: int
  is_encrypted :: bool
  is_damaged :: bool
  encoding_types :: "EncodingType list"
  fonts :: "FontInfo list"
  issues :: "PDFIssue list"
  metadata :: "(string \<times> string) list"

definition has_issues :: "PDFAnalysisResult \<Rightarrow> bool" where
  "has_issues r = (length (issues r) > 0)"

definition has_critical_issues :: "PDFAnalysisResult \<Rightarrow> bool" where
  "has_critical_issues r = list_ex (\<lambda>issue. severity issue = ''high'') (issues r)"

definition get_issues_by_type :: "PDFAnalysisResult \<Rightarrow> PDFIssueType \<Rightarrow> PDFIssue list" where
  "get_issues_by_type r t = filter (\<lambda>issue. issue_type issue = t) (issues r)"

definition get_issues_by_severity :: "PDFAnalysisResult \<Rightarrow> string \<Rightarrow> PDFIssue list" where
  "get_issues_by_severity r s = filter (\<lambda>issue. severity issue = s) (issues r)"

section \<open>Acceptance policy (PDFProcessor.is\_pdf\_acceptable)\<close>

text \<open>Python's \<open>sep.join(xs)\<close> on a list of strings.\<close>

fun join :: "string \<Rightarrow> string list \<Rightarrow> string" where
  "join sep [] = []"
| "join sep [x] = x"
| "join sep (x # y # ys) = x @ sep @ join sep (y # ys)"

text \<open>
  One entry of \<open>all_issues\<close>: \<open>page_numbers\<close> and \<open>details\<close> are replaced by
  \<open>None\<close> when they are empty (\<open>x if x else None\<close>).
\<close>

record issue_entry =
  entry_type :: string
  entry_description :: string
  entry_severity :: string
  entry_page_numbers :: "int list option"
  entry_details :: "(string \<times> string) list option"

definition issue_entry_of :: "PDFIssue \<Rightarrow> issue_entry" where
  "issue_entry_of issue =
     \<lparr> entry_type = issue_type_name (issue_type issue),
       entry_description = description issue,
       entry_severity = severity issue,
       entry_page_numbers = (if page_numbers issue \<noteq> [] then Some (page_numbers issue) else None),
       entry_details = (if details issue \<noteq> [] then Some (details issue) else None) \<rparr>"

record detailed_diagnostics =
  issues_found :: "string list"
  primary_rejection_reason :: "string option"
  all_issues :: "issue_entry list"

definition is_pdf_acceptable ::
  "PDFAnalysisResult \<Rightarrow> bool \<times> string \<times> detailed_diagnostics" where
  "is_pdf_acceptable analysis_result =
     (let diag = \<lparr> issues_found = [], primary_rejection_reason = None,
                    all_issues = map issue_entry_of (issues analysis_result) \<rparr>
      in
      if has_critical_issues analysis_result then
        (let critical_issues =
               map description (filter (\<lambda>issue. severity issue = ''high'') (issues analysis_result))
         in (False, ''Critical issues detected: '' @ join '', '' critical_issues,
             diag\<lparr> issues_found := issues_found diag @ [''critical_issues''],
                   primary_rejection_reason := Some ''critical_issues'' \<rparr>))
      else if is_damaged analysis_result then
        (False, ''PDF is damaged'',
         diag\<lparr> issues_found := issues_found diag @ [''damaged''],
               primary_rejection_reason := Some ''damaged'' \<rparr>)
      else if is_encrypted analysis_result then
        (False, ''PDF is encrypted'',
         diag\<lparr> issues_found := issues_found diag @ [''encrypted''],
               primary_rejection_reason := Some ''encrypted'' \<rparr>)
      else if num_pages analysis_result = 0 then
        (False, ''PDF has no pages'',
         diag\<lparr> issues_found := issues_found diag @ [''empty_document''],
               primary_rejection_reason := Some ''empty_document'' \<rparr>)
      else if filter (\<lambda>issue. issue_type issue = SCANNED_IMAGE) (issues analysis_result) \<noteq> [] then
        (True, ''PDF may be scanned (will attempt extraction but may fail)'',
         diag\<lparr> issues_found := issues_found diag @ [''scanned_image''],
               primary_rejection_reason := Some ''likely_scanned_document'' \<rparr>)
      else if filter (\<lambda>issue. issue_type issue \<in> {ENCODING_ISSUE, UTF16_ENCODING, MIXED_ENCODINGS})
                (issues analysis_result) \<noteq> [] then
        (True, ''PDF has encoding issues (will attempt extraction but may have character problems)'',
         diag\<lparr> issues_found := issues_found diag @ [''encoding_issues''] \<rparr>)
      else
        (True, ''PDF is acceptable for processing'', diag))"

section \<open>Structural analyzer (PDFAnalyzer.analyze\_file)\<close>

text \<open>
  The file on disk as the analyzer sees it: whether the path exists, the size
  reported by \<open>stat\<close>, and the bytes (\<open>None\<close> when opening or reading raises).
\<close>

record pdf_file =
  file_exists :: bool
  st_size :: int
  file_content :: "string option"

text \<open>
  \<open>_is_valid_pdf\<close>: reads at most 1024 bytes and tests the signature; any
  exception while reading gives \<open>False\<close>.
\<close>

definition is_valid_pdf :: "pdf_file \<Rightarrow> bool" where
  "is_valid_pdf f =
     (case file_content f of
        None \<Rightarrow> False
      | Some bytes \<Rightarrow> (let header = take 1024 bytes in prefix ''%PDF-'' header))"

text \<open>
  The answer of the PyMuPDF client (\<open>self.pymupdf.analyze_pdf\<close>) is a dictionary
  read with \<open>.get(key, default)\<close>; an absent key is \<open>None\<close>. The call itself may
  raise. The sources of \<open>PyMuPDFInterface\<close> hold no \<open>analyze_pdf\<close> method, so the
  answer is a parameter of the analyzer: a well-typed dictionary, or the exception of
  the call (an \<open>AttributeError\<close> with the interface as it stands).
\<close>

record font_dict =
  fd_name :: "string option"
  fd_type :: "string option"
  fd_encoding :: "string option"
  fd_embedded :: "bool option"
  fd_subset :: "bool option"

record issue_dict =
  id_type :: "string option"
  id_description :: "string option"
  id_severity :: "string option"
  id_page_numbers :: "int list option"
  id_details :: "(string \<times> string) list option"

record pymupdf_analysis =
  a_success :: "bool option"
  a_error :: "string option"
  a_num_pages :: "int option"
  a_is_encrypted :: "bool option"
  a_is_damaged :: "bool option"
  a_metadata :: "(string \<times> string) list option"
  a_encoding_types :: "string list option"
  a_fonts :: "font_dict list option"
  a_issues :: "issue_dict list option"

text \<open>\<open>d.get(key, default)\<close>.\<close>

definition get_or :: "'a option \<Rightarrow> 'a \<Rightarrow> 'a" where
  "get_or v d = (case v of None \<Rightarrow> d | Some x \<Rightarrow> x)"

text \<open>\<open>EncodingType[name]\<close> and \<open>PDFIssueType[name]\<close>: \<open>None\<close> is the KeyError.\<close>

definition all_encoding_types :: "EncodingType list" where
  "all_encoding_types =
     [ASCII, UTF8, UTF8_WITH_BOM, UTF16, UTF16BE, UTF16LE, UTF16BE_WITH_BOM,
      UTF16LE_WITH_BOM, IDENTITY_H, WINANSI, MACROMAN, LATIN1, CUSTOM, UNKNOWN]"

fun encoding_type_name :: "EncodingType \<Rightarrow> string" where
  "encoding_type_name ASCII = ''ASCII''"
| "encoding_type_name UTF8 = ''UTF8''"
| "encoding_type_name UTF8_WITH_BOM = ''UTF8_WITH_BOM''"
| "encoding_type_name UTF16 = ''UTF16''"
| "encoding_type_name UTF16BE = ''UTF16BE''"
| "encoding_type_name UTF16LE = ''UTF16LE''"
| "encoding_type_name UTF16BE_WITH_BOM = ''UTF16BE_WITH_BOM''"
| "encoding_type_name UTF16LE_WITH_BOM = ''UTF16LE_WITH_BOM''"
| "encoding_type_name IDENTITY_H = ''IDENTITY_H''"
| "encoding_type_name WINANSI = ''WINANSI''"
| "encoding_type_name MACROMAN = ''MACROMAN''"
| "encoding_type_name LATIN1 = ''LATIN1''"
| "encoding_type_name CUSTOM = ''CUSTOM''"
| "encoding_type_name UNKNOWN = ''UNKNOWN''"

definition encoding_type_of_name :: "string \<Rightarrow> EncodingType option" where
  "encoding_type_of_name s = find (\<lambda>e. encoding_type_name e = s) all_encoding_types"

definition all_issue_types :: "PDFIssueType list" where
  "all_issue_types =
     [PASSWORD_PROTECTED, DAMAGED, ENCRYPTED, MISSING_FONTS, EMBEDDED_FILES, JAVASCRIPT,
      FORM_FIELDS, DIGITAL_SIGNATURES, LARGE_SIZE, HIGH_COMPRESSION, SCANNED_IMAGE,
      WATERMARK, CUSTOM_METADATA, UNUSUAL_STRUCTURE, ENCODING_ISSUE, UTF16_ENCODING,
      MIXED_ENCODINGS]"

definition issue_type_of_name :: "string \<Rightarrow> PDFIssueType option" where
  "issue_type_of_name s = find (\<lambda>t. issue_type_name t = s) all_issue_types"

text \<open>\<open>result.encoding_types.add(e)\<close> on a Python set.\<close>

definition set_add :: "'a \<Rightarrow> 'a list \<Rightarrow> 'a list" where
  "set_add x xs = (if x \<in> set xs then xs else xs @ [x])"

text \<open>The three loops that copy the client's answer into the result.\<close>

fun process_encoding_types :: "string list \<Rightarrow> PDFAnalysisResult \<Rightarrow> PDFAnalysisResult" where
  "process_encoding_types [] result = result"
| "process_encoding_types (enc_type_str # rest) result =
     (case encoding_type_of_name enc_type_str of
        Some enc_type \<Rightarrow>
          process_encoding_types rest
            (result\<lparr> encoding_types := set_add enc_type (encoding_types result) \<rparr>)
      | None \<Rightarrow> process_encoding_types rest result)"

definition font_of_dict :: "font_dict \<Rightarrow> FontInfo" where
  "font_of_dict d =
     \<lparr> font_name = get_or (fd_name d) ''Unknown'',
       font_type = get_or (fd_type d) ''Unknown'',
       font_encoding = get_or (encoding_type_of_name (get_or (fd_encoding d) ''UNKNOWN'')) UNKNOWN,
       embedded = get_or (fd_embedded d) False,
       subset = get_or (fd_subset d) False \<rparr>"

fun process_fonts :: "font_dict list \<Rightarrow> PDFAnalysisResult \<Rightarrow> PDFAnalysisResult" where
  "process_fonts [] result = result"
| "process_fonts (d # rest) result =
     process_fonts rest (result\<lparr> fonts := fonts result @ [font_of_dict d] \<rparr>)"

fun process_issues :: "issue_dict list \<Rightarrow> PDFAnalysisResult \<Rightarrow> PDFAnalysisResult" where
  "process_issues [] result = result"
| "process_issues (d # rest) result =
     (case issue_type_of_name (get_or (id_type d) ''UNKNOWN'') of
        None \<Rightarrow> process_issues rest result
      | Some t \<Rightarrow>
          process_issues rest
            (result\<lparr> issues := issues result @
               [\<lparr> issue_type = t,
                  description = get_or (id_description d) ''Unknown issue'',
                  severity = get_or (id_severity d) ''medium'',
                  page_numbers = get_or (id_page_numbers d) [],
                  details = get_or (id_details d) [] \<rparr>] \<rparr>))"

text \<open>
  What \<open>pikepdf.open\<close> gives the fallback parser. A page has \<open>/Resources\<close> or not,
  the resources have \<open>/Font\<close> or not; a font entry has optional \<open>/Subtype\<close>,
  \<open>/BaseFont\<close> and \<open>/Encoding\<close>, and a font descriptor that holds a font file or
  not. Reading the object table (\<open>len(pdf.objects)\<close>) may raise on a broken file.
\<close>

record pike_font =
  font_key :: string
  subtype :: "string option"
  base_font_entry :: "string option"
  encoding_entry :: "string option"
  descriptor_has_font_file :: "bool option"

record pike_page =
  page_fonts :: "pike_font list option option"

record pike_pdf =
  pdf_pages :: "pike_page list"
  docinfo :: "(string \<times> string) list"
  root_has_embedded_files :: bool
  pdf_objects :: "nat outcome"

text \<open>Decimal rendering of a number, for the f-strings.\<close>

definition digit_char :: "nat \<Rightarrow> char" where
  "digit_char d = char_of (48 + d)"

function str_nat :: "nat \<Rightarrow> string" where
  "str_nat n = (if n < 10 then [digit_char n] else str_nat (n div 10) @ [digit_char (n mod 10)])"
  by pat_completeness auto
termination
  by (relation "measure id") auto

text \<open>
  One font entry of \<open>_extract_fonts_with_pikepdf\<close>; the state is the set of base
  font names seen so far and the result under construction.
\<close>

definition encoding_of_str :: "string \<Rightarrow> EncodingType option" where
  "encoding_of_str encoding_str =
     (if sublist ''Identity-H'' encoding_str then Some IDENTITY_H
      else if sublist ''WinAnsi'' encoding_str then Some WINANSI
      else if sublist ''MacRoman'' encoding_str then Some MACROMAN
      else if sublist ''Custom'' encoding_str then Some CUSTOM
      else None)"

definition extract_font ::
  "nat \<Rightarrow> pike_font \<Rightarrow> string list \<times> PDFAnalysisResult \<Rightarrow> string list \<times> PDFAnalysisResult" where
  "extract_font page_num font st =
     (let (font_set, result) = st;
          font_type = get_or (subtype font) ''Unknown'';
          base_font = get_or (base_font_entry font) ''Unknown'';
          encoding_str = get_or (encoding_entry font) ''Unknown''
      in
      if base_font \<in> set font_set then (font_set, result)
      else
        (let font_set' = font_set @ [base_font];
             enc = encoding_of_str encoding_str;
             result1 = (case enc of
                          None \<Rightarrow> result
                        | Some e \<Rightarrow> result\<lparr> encoding_types := set_add e (encoding_types result) \<rparr>);
             is_embedded = (descriptor_has_font_file font = Some True);
             is_subset = (CHR ''+'' \<in> set base_font);
             result2 = result1\<lparr> fonts := fonts result1 @
                         [\<lparr> font_name = base_font, font_type = font_type,
                            font_encoding = get_or enc UNKNOWN,
                            embedded = is_embedded, subset = is_subset \<rparr>] \<rparr>;
             result3 = (if \<not> is_embedded \<and> font_type \<notin> {''/Type1'', ''/MMType1''} then
                          result2\<lparr> issues := issues result2 @
                            [\<lparr> issue_type = MISSING_FONTS,
                               description = ''Non-embedded font: '' @ base_font,
                               severity = ''medium'',
                               page_numbers = [int page_num],
                               details = [] \<rparr>] \<rparr>
                        else result2)
         in (font_set', result3)))"

fun extract_page_fonts ::
  "nat \<Rightarrow> pike_page list \<Rightarrow> string list \<times> PDFAnalysisResult \<Rightarrow> string list \<times> PDFAnalysisResult" where
  "extract_page_fonts page_num [] st = st"
| "extract_page_fonts page_num (page # rest) st =
     (case page_fonts page of
        None \<Rightarrow> extract_page_fonts (Suc page_num) rest st
      | Some None \<Rightarrow> extract_page_fonts (Suc page_num) rest st
      | Some (Some fs) \<Rightarrow>
          extract_page_fonts (Suc page_num) rest (fold (extract_font page_num) fs st))"

definition extract_fonts_with_pikepdf :: "pike_pdf \<Rightarrow> PDFAnalysisResult \<Rightarrow> PDFAnalysisResult" where
  "extract_fonts_with_pikepdf pdf result = snd (extract_page_fonts 0 (pdf_pages pdf) ([], result))"

text \<open>
  \<open>_analyze_with_pikepdf\<close> mutates the result in place, so an exception leaves the
  changes made before it. A \<open>PasswordError\<close> is handled inside; every other exception
  escapes to the caller.
\<close>

definition analyze_with_pikepdf ::
  "pike_pdf outcome \<Rightarrow> PDFAnalysisResult \<Rightarrow> unit outcome \<times> PDFAnalysisResult" where
  "analyze_with_pikepdf opened result =
     (case opened of
        Raises PasswordError \<Rightarrow>
          (Returns (),
           result\<lparr> is_encrypted := True,
                    issues := issues result @
                      [\<lparr> issue_type = PASSWORD_PROTECTED,
                         description = ''PDF is password protected'',
                         severity = ''high'', page_numbers = [], details = [] \<rparr>] \<rparr>)
      | Raises e \<Rightarrow> (Raises e, result)
      | Returns pdf \<Rightarrow>
          (let result1 = result\<lparr> num_pages := int (length (pdf_pages pdf)) \<rparr>;
               result2 = (if docinfo pdf \<noteq> [] then result1\<lparr> metadata := docinfo pdf \<rparr> else result1);
               result3 = (if root_has_embedded_files pdf then
                            result2\<lparr> issues := issues result2 @
                              [\<lparr> issue_type = EMBEDDED_FILES,
                                 description = ''PDF contains embedded files'',
                                 severity = ''medium'', page_numbers = [], details = [] \<rparr>] \<rparr>
                          else result2)
           in case pdf_objects pdf of
                Raises e \<Rightarrow> (Raises e, result3)
              | Returns n \<Rightarrow>
                  (let result4 = (if int n > num_pages result3 * 10 then
                                    result3\<lparr> issues := issues result3 @
                                      [\<lparr> issue_type = UNUSUAL_STRUCTURE,
                                         description = ''PDF has an unusually complex structure ('' @
                                                       str_nat n @ '' objects)'',
                                         severity = ''medium'', page_numbers = [], details = [] \<rparr>] \<rparr>
                                  else result3)
                   in (Returns (), extract_fonts_with_pikepdf pdf result4))))"

datatype parser = PyMuPDF | PikePDF

definition damaged_issue :: "string \<Rightarrow> PDFIssue" where
  "damaged_issue d =
     \<lparr> issue_type = DAMAGED, description = d, severity = ''high'',
       page_numbers = [], details = [] \<rparr>"

definition mark_damaged :: "string \<Rightarrow> PDFAnalysisResult \<Rightarrow> PDFAnalysisResult" where
  "mark_damaged d result =
     result\<lparr> is_damaged := True, issues := issues result @ [damaged_issue d] \<rparr>"

definition initial_result :: "string \<Rightarrow> pdf_file \<Rightarrow> PDFAnalysisResult" where
  "initial_result path f =
     \<lparr> filepath = path, filesize = st_size f, num_pages = 0,
       is_encrypted = False, is_damaged = False,
       encoding_types = [], fonts = [], issues = [], metadata = [] \<rparr>"

definition process_pymupdf_results :: "pymupdf_analysis \<Rightarrow> PDFAnalysisResult \<Rightarrow> PDFAnalysisResult" where
  "process_pymupdf_results analysis result =
     (let result1 = result\<lparr> num_pages := get_or (a_num_pages analysis) 0,
                             is_encrypted := get_or (a_is_encrypted analysis) False,
                             is_damaged := get_or (a_is_damaged analysis) False \<rparr>;
          result2 = (case a_metadata analysis of
                       Some m \<Rightarrow> (if m \<noteq> [] then result1\<lparr> metadata := m \<rparr> else result1)
                     | None \<Rightarrow> result1);
          result3 = process_encoding_types (get_or (a_encoding_types analysis) []) result2;
          result4 = process_fonts (get_or (a_fonts analysis) []) result3
      in process_issues (get_or (a_issues analysis) []) result4)"

text \<open>
  \<open>analyze_file\<close>. Besides the outcome the model returns the parsers that were
  invoked, in order. The primary answer \<open>primary\<close> and what \<open>pikepdf.open\<close> gives
  (\<open>opened\<close>) are consulted only where the code calls the parser.
\<close>

definition analyze_file ::
  "string \<Rightarrow> pdf_file \<Rightarrow> pymupdf_analysis outcome \<Rightarrow> pike_pdf outcome
     \<Rightarrow> PDFAnalysisResult outcome \<times> parser list" where
  "analyze_file path f primary opened =
     (if \<not> file_exists f then (Raises (FileNotFoundError (''File not found: '' @ path)), [])
      else
        (let result = initial_result path f in
         if \<not> is_valid_pdf f then
           (Returns (mark_damaged ''File does not appear to be a valid PDF'' result), [])
         else
           (case primary of
              Returns analysis \<Rightarrow>
                (if \<not> get_or (a_success analysis) False then
                   (case analyze_with_pikepdf opened result of
                      (Returns u, result') \<Rightarrow> (Returns result', [PyMuPDF, PikePDF])
                    | (Raises e2, result') \<Rightarrow>
                        (Returns (mark_damaged
                           (''Failed to analyze PDF: '' @ get_or (a_error analysis) ''Unknown error'' @
                            ''; '' @ str_of_error e2) result'),
                         [PyMuPDF, PikePDF]))
                 else (Returns (process_pymupdf_results analysis result), [PyMuPDF]))
            | Raises e \<Rightarrow>
                (case analyze_with_pikepdf opened result of
                   (Returns u, result') \<Rightarrow> (Returns result', [PyMuPDF, PikePDF])
                 | (Raises e2, result') \<Rightarrow>
                     (Returns (mark_damaged
                        (''Failed to analyze PDF: '' @ str_of_error e @ ''; '' @ str_of_error e2)
                        result'),
                      [PyMuPDF, PikePDF])))))"

section \<open>Relational log store (core/db\_manager.py)\<close>

text \<open>
  Timestamps are seconds on the caller's clock; \<open>isoformat()\<close> keeps the value.
  A nullable column is an \<open>option\<close>. JSON columns keep the structure that is dumped.
\<close>

type_synonym timestamp = int

record run_row =
  rr_run_id :: string
  rr_start_time :: "timestamp option"
  rr_end_time :: "timestamp option"
  rr_status :: "string option"
  rr_total_files :: "int option"
  rr_processed_files :: "int option"
  rr_failed_files :: "int option"
  rr_skipped_files :: "int option"
  rr_already_processed_files :: "int option"
  rr_total_processing_time :: "int option"
  rr_run_name :: "string option"
  rr_collection :: "string option"
  rr_embedding_model :: "string option"
  rr_chunk_size :: "int option"
  rr_chunk_overlap :: "int option"

text \<open>The text-extraction diagnostics of \<open>_create_diagnostics_from_result\<close>.\<close>

record extraction_attempt =
  attempt_method :: string
  attempt_success :: bool
  attempt_char_count :: nat

record extraction_diagnostics =
  extraction_attempts :: "extraction_attempt list"
  page_count :: int
  failure_reason :: "string option"
  failure_details :: "string option"

text \<open>
  \<open>error_message\<close> is a string that may embed \<open>json.dumps\<close> of diagnostics; the
  model keeps the parts apart instead of rendering JSON.
\<close>

datatype message =
    Plain string
  | WithDetails string detailed_diagnostics
  | ExtractionFailure string extraction_diagnostics detailed_diagnostics

text \<open>
  The dumped \<open>analysis_dict\<close>; \<open>metadata["diagnostics"]\<close>, which the
  orchestrator adds to the result's metadata, is kept in two fields of its own.
\<close>

record analysis_json =
  aj_result :: PDFAnalysisResult
  aj_acceptance_check :: "detailed_diagnostics option"
  aj_text_extraction :: "extraction_diagnostics option"

record ingestion_row =
  il_id :: nat
  il_file_path :: string
  il_collection :: string
  il_status :: string
  il_error_message :: message
  il_issues :: string
  il_ingestion_time :: timestamp
  il_encoding_types :: "string list option"
  il_is_encrypted :: int
  il_is_damaged :: int
  il_num_pages :: int
  il_filesize :: int
  il_analysis_result :: "analysis_json option"
  il_run_id :: "string option"
  il_file_fingerprint :: "string option"

text \<open>\<open>last_id\<close> is the AUTOINCREMENT sequence of \<open>ingestion_log\<close>.\<close>

record database =
  runs :: "run_row list"
  ingestion_log :: "ingestion_row list"
  last_id :: nat

definition empty_database :: database where
  "empty_database = \<lparr> runs = [], ingestion_log = [], last_id = 0 \<rparr>"

definition log_ingestion ::
  "timestamp \<Rightarrow> string \<Rightarrow> string \<Rightarrow> string \<Rightarrow> analysis_json option \<Rightarrow> message
     \<Rightarrow> string option \<Rightarrow> string option \<Rightarrow> database \<Rightarrow> database" where
  "log_ingestion now file_path collection_name status analysis error_message run file_fingerprint d =
     (let new_id = Suc (last_id d);
          row = \<lparr> il_id = new_id,
                  il_file_path = file_path,
                  il_collection = collection_name,
                  il_status = status,
                  il_error_message = error_message,
                  il_issues = '''',
                  il_ingestion_time = now,
                  il_encoding_types =
                    (case analysis of None \<Rightarrow> None
                     | Some a \<Rightarrow> Some (map encoding_type_name (encoding_types (aj_result a)))),
                  il_is_encrypted =
                    (case analysis of None \<Rightarrow> 0
                     | Some a \<Rightarrow> (if is_encrypted (aj_result a) then 1 else 0)),
                  il_is_damaged =
                    (case analysis of None \<Rightarrow> 0
                     | Some a \<Rightarrow> (if is_damaged (aj_result a) then 1 else 0)),
                  il_num_pages = (case analysis of None \<Rightarrow> 0 | Some a \<Rightarrow> num_pages (aj_result a)),
                  il_filesize = (case analysis of None \<Rightarrow> 0 | Some a \<Rightarrow> filesize (aj_result a)),
                  il_analysis_result = analysis,
                  il_run_id = run,
                  il_file_fingerprint = file_fingerprint \<rparr>
      in d\<lparr> ingestion_log := ingestion_log d @ [row], last_id := new_id \<rparr>)"

text \<open>
  \<open>RunRecord\<close> as \<open>create_run\<close> and \<open>update_run\<close> read it: the five metadata
  fields, and as \<open>get_run_record\<close> builds it from a row.
\<close>

record RunRecord =
  rec_run_id :: string
  rec_start_time :: "timestamp option"
  rec_end_time :: "timestamp option"
  rec_status :: "string option"
  rec_total_files :: "int option"
  rec_processed_files :: "int option"
  rec_failed_files :: "int option"
  rec_skipped_files :: "int option"
  rec_already_processed_files :: "int option"
  rec_total_processing_time :: "int option"
  rec_run_name :: "string option"
  rec_collection :: "string option"
  rec_embedding_model :: "string option"
  rec_chunk_size :: "int option"
  rec_chunk_overlap :: "int option"

text \<open>
  \<open>create_run\<close>: \<open>run_id\<close> is the primary key of \<open>runs\<close>, so inserting an id that
  is present raises \<open>sqlite3.IntegrityError\<close> and changes nothing.
\<close>

definition create_run ::
  "string \<Rightarrow> timestamp \<Rightarrow> int \<Rightarrow> RunRecord option \<Rightarrow> database \<Rightarrow> unit outcome \<times> database" where
  "create_run rid start total_count run_record d =
     (if rid \<in> set (map rr_run_id (runs d)) then
        (Raises (IntegrityError ''UNIQUE constraint failed: runs.run_id''), d)
      else
        (Returns (),
         d\<lparr> runs := runs d @
           [\<lparr> rr_run_id = rid, rr_start_time = Some start, rr_end_time = None,
              rr_status = Some ''running'', rr_total_files = Some total_count,
              rr_processed_files = Some 0, rr_failed_files = Some 0,
              rr_skipped_files = Some 0, rr_already_processed_files = Some 0,
              rr_total_processing_time = None,
              rr_run_name = (case run_record of None \<Rightarrow> None | Some r \<Rightarrow> rec_run_name r),
              rr_collection = (case run_record of None \<Rightarrow> None | Some r \<Rightarrow> rec_collection r),
              rr_embedding_model = (case run_record of None \<Rightarrow> None | Some r \<Rightarrow> rec_embedding_model r),
              rr_chunk_size = (case run_record of None \<Rightarrow> None | Some r \<Rightarrow> rec_chunk_size r),
              rr_chunk_overlap = (case run_record of None \<Rightarrow> None | Some r \<Rightarrow> rec_chunk_overlap r) \<rparr>] \<rparr>))"

text \<open>
  The keyword arguments of \<open>update_run\<close>; \<open>None\<close> leaves the column alone. The
  \<open>metadata\<close> argument, which no caller passes, is left out.
\<close>

record run_update =
  up_end_time :: "timestamp option"
  up_status :: "string option"
  up_processed_files :: "int option"
  up_failed_files :: "int option"
  up_skipped_files :: "int option"
  up_already_processed_files :: "int option"
  up_total_processing_time :: "int option"
  up_run_record :: "RunRecord option"

definition no_update :: run_update where
  "no_update =
     \<lparr> up_end_time = None, up_status = None, up_processed_files = None,
       up_failed_files = None, up_skipped_files = None, up_already_processed_files = None,
       up_total_processing_time = None, up_run_record = None \<rparr>"

text \<open>\<open>SET col = ?\<close> for a provided value.\<close>

definition set_col :: "'a option \<Rightarrow> 'a option \<Rightarrow> 'a option" where
  "set_col new old = (case new of None \<Rightarrow> old | Some v \<Rightarrow> Some v)"

definition record_col :: "RunRecord option \<Rightarrow> (RunRecord \<Rightarrow> 'a option) \<Rightarrow> 'a option" where
  "record_col run_record field = (case run_record of None \<Rightarrow> None | Some r \<Rightarrow> field r)"

definition apply_update :: "run_update \<Rightarrow> run_row \<Rightarrow> run_row" where
  "apply_update u row =
     row\<lparr> rr_end_time := set_col (up_end_time u) (rr_end_time row),
          rr_status := set_col (up_status u) (rr_status row),
          rr_processed_files := set_col (up_processed_files u) (rr_processed_files row),
          rr_failed_files := set_col (up_failed_files u) (rr_failed_files row),
          rr_skipped_files := set_col (up_skipped_files u) (rr_skipped_files row),
          rr_already_processed_files :=
            set_col (up_already_processed_files u) (rr_already_processed_files row),
          rr_total_processing_time :=
            set_col (up_total_processing_time u) (rr_total_processing_time row),
          rr_run_name := set_col (record_col (up_run_record u) rec_run_name) (rr_run_name row),
          rr_collection := set_col (record_col (up_run_record u) rec_collection) (rr_collection row),
          rr_embedding_model :=
            set_col (record_col (up_run_record u) rec_embedding_model) (rr_embedding_model row),
          rr_chunk_size := set_col (record_col (up_run_record u) rec_chunk_size) (rr_chunk_size row),
          rr_chunk_overlap :=
            set_col (record_col (up_run_record u) rec_chunk_overlap) (rr_chunk_overlap row) \<rparr>"

text \<open>\<open>UPDATE runs SET ... WHERE run_id = ?\<close>; a run that is absent changes nothing.\<close>

definition update_run :: "string \<Rightarrow> run_update \<Rightarrow> database \<Rightarrow> database" where
  "update_run rid u d =
     d\<lparr> runs := map (\<lambda>row. if rr_run_id row = rid then apply_update u row else row) (runs d) \<rparr>"

definition get_run :: "database \<Rightarrow> string \<Rightarrow> run_row option" where
  "get_run d rid = find (\<lambda>row. rr_run_id row = rid) (runs d)"

definition get_run_record :: "database \<Rightarrow> string \<Rightarrow> RunRecord option" where
  "get_run_record d rid =
     (case get_run d rid of
        None \<Rightarrow> None
      | Some row \<Rightarrow>
          Some \<lparr> rec_run_id = rr_run_id row, rec_start_time = rr_start_time row,
                 rec_end_time = rr_end_time row, rec_status = rr_status row,
                 rec_total_files = rr_total_files row,
                 rec_processed_files = rr_processed_files row,
                 rec_failed_files = rr_failed_files row,
                 rec_skipped_files = rr_skipped_files row,
                 rec_already_processed_files = rr_already_processed_files row,
                 rec_total_processing_time = rr_total_processing_time row,
                 rec_run_name = rr_run_name row, rec_collection = rr_collection row,
                 rec_embedding_model = rr_embedding_model row,
                 rec_chunk_size = rr_chunk_size row,
                 rec_chunk_overlap = rr_chunk_overlap row \<rparr>)"

text \<open>
  \<open>get_ingestion_by_fingerprint\<close>: the rows of \<open>ingestion_log\<close> with the given
  fingerprint that join a run whose \<open>collection\<close> column is the given name; of these
  the one with the greatest id (\<open>ORDER BY il.id DESC LIMIT 1\<close>). The
  \<open>collection\<close> column of \<open>ingestion_log\<close> itself is not consulted.
\<close>

definition joins_collection :: "database \<Rightarrow> string \<Rightarrow> ingestion_row \<Rightarrow> bool" where
  "joins_collection d collection_name il =
     list_ex (\<lambda>r. il_run_id il = Some (rr_run_id r) \<and> rr_collection r = Some collection_name) (runs d)"

fun latest_row :: "ingestion_row list \<Rightarrow> ingestion_row option" where
  "latest_row [] = None"
| "latest_row (il # rest) =
     (case latest_row rest of
        None \<Rightarrow> Some il
      | Some best \<Rightarrow> (if il_id best < il_id il then Some il else Some best))"

definition get_ingestion_by_fingerprint ::
  "database \<Rightarrow> string \<Rightarrow> string \<Rightarrow> ingestion_row option" where
  "get_ingestion_by_fingerprint d file_fingerprint collection_name =
     latest_row
       (filter (\<lambda>il. il_file_fingerprint il = Some file_fingerprint \<and>
                     joins_collection d collection_name il)
          (ingestion_log d))"

definition file_needs_processing ::
  "database \<Rightarrow> string \<Rightarrow> string \<Rightarrow> bool \<times> ingestion_row option" where
  "file_needs_processing d file_fingerprint collection_name =
     (case get_ingestion_by_fingerprint d file_fingerprint collection_name of
        Some previous_ingestion \<Rightarrow> (False, Some previous_ingestion)
      | None \<Rightarrow> (True, None))"



section \<open>Run controller (core/run\_manager.py)\<close>

record RunManager =
  run_id :: "string option"
  start_time :: "timestamp option"
  end_time :: "timestamp option"
  processed_files :: int
  failed_files :: int
  skipped_files :: int
  already_processed_files :: int
  total_files :: int
  status :: string
  run_name :: "string option"
  collection :: "string option"
  embedding_model_name :: "string option"
  chunk_size :: "int option"
  chunk_overlap :: "int option"

text \<open>\<open>RunManager.__init__\<close>.\<close>

definition new_run_manager :: RunManager where
  "new_run_manager =
     \<lparr> run_id = None, start_time = None, end_time = None,
       processed_files = 0, failed_files = 0, skipped_files = 0,
       already_processed_files = 0, total_files = 0, status = ''not_started'',
       run_name = None, collection = None, embedding_model_name = None,
       chunk_size = None, chunk_overlap = None \<rparr>"

text \<open>Python truth of an optional string: \<open>None\<close> and \<open>""\<close> are false.\<close>

definition truthy :: "string option \<Rightarrow> bool" where
  "truthy s = (case s of None \<Rightarrow> False | Some v \<Rightarrow> v \<noteq> [])"

record cmd_args =
  arg_collection :: "string option"
  arg_embedding_model :: "string option"
  arg_chunk_size :: "int option"
  arg_chunk_overlap :: "int option"

record run_metadata =
  md_run_name :: "string option"
  md_command_line_args :: "cmd_args option"

text \<open>
  \<open>start_run\<close>. \<open>fresh_uuid\<close> is what \<open>uuid.uuid4()\<close> would give, \<open>now\<close> the
  clock. The object is updated before \<open>create_run\<close> is called, so a failing insert
  leaves the manager with the run id set.
\<close>

definition start_run ::
  "timestamp \<Rightarrow> string \<Rightarrow> int \<Rightarrow> string option \<Rightarrow> run_metadata option
     \<Rightarrow> RunManager \<times> database \<Rightarrow> string outcome \<times> (RunManager \<times> database)" where
  "start_run now fresh_uuid total_count rid_arg md st =
     (let (rm, d) = st;
          rid = (if truthy rid_arg then the rid_arg else fresh_uuid);
          rm1 = rm\<lparr> run_id := Some rid, start_time := Some now, total_files := total_count,
                    processed_files := 0, failed_files := 0, skipped_files := 0,
                    already_processed_files := 0, status := ''running'' \<rparr>;
          rm2 = (case md of
                   None \<Rightarrow> rm1
                 | Some m \<Rightarrow>
                     (let rm' = rm1\<lparr> run_name := md_run_name m \<rparr>
                      in case md_command_line_args m of
                           None \<Rightarrow> rm'
                         | Some a \<Rightarrow>
                             rm'\<lparr> collection := arg_collection a,
                                   embedding_model_name := arg_embedding_model a,
                                   chunk_size := arg_chunk_size a,
                                   chunk_overlap := arg_chunk_overlap a \<rparr>));
          run_record =
            \<lparr> rec_run_id = rid, rec_start_time = Some now, rec_end_time = None,
              rec_status = Some (status rm2), rec_total_files = Some (total_files rm2),
              rec_processed_files = Some (processed_files rm2),
              rec_failed_files = Some (failed_files rm2),
              rec_skipped_files = Some (skipped_files rm2),
              rec_already_processed_files = Some (already_processed_files rm2),
              rec_total_processing_time = None,
              rec_run_name = run_name rm2, rec_collection = collection rm2,
              rec_embedding_model = embedding_model_name rm2,
              rec_chunk_size = chunk_size rm2, rec_chunk_overlap = chunk_overlap rm2 \<rparr>
      in case create_run rid now (total_files rm2) (Some run_record) d of
           (Raises e, d') \<Rightarrow> (Raises e, (rm2, d'))
         | (Returns u, d') \<Rightarrow> (Returns rid, (rm2, d')))"

definition no_run_error :: error where
  "no_run_error = ValueError ''No run in progress. Call start_run() first.''"

definition increment_processed ::
  "RunManager \<times> database \<Rightarrow> int outcome \<times> (RunManager \<times> database)" where
  "increment_processed st =
     (let (rm, d) = st in
      if \<not> truthy (run_id rm) then (Raises no_run_error, (rm, d))
      else
        (let rm' = rm\<lparr> processed_files := processed_files rm + 1 \<rparr>;
             d' = update_run (the (run_id rm'))
                    (no_update\<lparr> up_processed_files := Some (processed_files rm') \<rparr>) d
         in (Returns (processed_files rm'), (rm', d'))))"

definition increment_failed ::
  "RunManager \<times> database \<Rightarrow> int outcome \<times> (RunManager \<times> database)" where
  "increment_failed st =
     (let (rm, d) = st in
      if \<not> truthy (run_id rm) then (Raises no_run_error, (rm, d))
      else
        (let rm' = rm\<lparr> failed_files := failed_files rm + 1 \<rparr>;
             d' = update_run (the (run_id rm'))
                    (no_update\<lparr> up_failed_files := Some (failed_files rm') \<rparr>) d
         in (Returns (failed_files rm'), (rm', d'))))"

definition increment_skipped ::
  "RunManager \<times> database \<Rightarrow> int outcome \<times> (RunManager \<times> database)" where
  "increment_skipped st =
     (let (rm, d) = st in
      if \<not> truthy (run_id rm) then (Raises no_run_error, (rm, d))
      else
        (let rm' = rm\<lparr> skipped_files := skipped_files rm + 1 \<rparr>;
             d' = update_run (the (run_id rm'))
                    (no_update\<lparr> up_skipped_files := Some (skipped_files rm') \<rparr>) d
         in (Returns (skipped_files rm'), (rm', d'))))"

definition increment_already_processed ::
  "RunManager \<times> database \<Rightarrow> int outcome \<times> (RunManager \<times> database)" where
  "increment_already_processed st =
     (let (rm, d) = st in
      if \<not> truthy (run_id rm) then (Raises no_run_error, (rm, d))
      else
        (let rm1 = rm\<lparr> already_processed_files := already_processed_files rm + 1 \<rparr>;
             rm2 = rm1\<lparr> skipped_files := skipped_files rm1 + 1 \<rparr>;
             d' = update_run (the (run_id rm2))
                    (no_update\<lparr> up_already_processed_files := Some (already_processed_files rm2),
                                 up_skipped_files := Some (skipped_files rm2) \<rparr>) d
         in (Returns (already_processed_files rm2), (rm2, d'))))"

record RunStatistics =
  stat_run_id :: string
  stat_start_time :: timestamp
  stat_end_time :: "timestamp option"
  stat_status :: string
  stat_total_files :: int
  stat_processed_files :: int
  stat_failed_files :: int
  stat_skipped_files :: int
  stat_already_processed_files :: int
  stat_completion_percentage :: real
  stat_processing_time_seconds :: real
  stat_run_name :: "string option"
  stat_collection :: "string option"
  stat_embedding_model :: "string option"
  stat_chunk_size :: "int option"
  stat_chunk_overlap :: "int option"

text \<open>
  \<open>get_run_stats\<close>. Subtracting from a start time that is \<open>None\<close> is a
  \<open>TypeError\<close>; a run row that is absent makes \<open>get_run_record\<close> return \<open>None\<close>
  and the attribute access on it an \<open>AttributeError\<close>. Float arithmetic is exact
  here.
\<close>

definition get_run_stats :: "timestamp \<Rightarrow> RunManager \<times> database \<Rightarrow> RunStatistics outcome" where
  "get_run_stats now st =
     (let (rm, d) = st in
      if \<not> truthy (run_id rm) then Raises no_run_error
      else
        (case start_time rm of
           None \<Rightarrow> Raises (TypeError ''unsupported operand type(s) for -'')
         | Some started \<Rightarrow>
             (let processing_time =
                    (case end_time rm of Some ended \<Rightarrow> ended - started | None \<Rightarrow> now - started);
                  completion_percentage =
                    (if total_files rm > 0 then
                       real_of_int (processed_files rm + failed_files rm + skipped_files rm)
                         / real_of_int (total_files rm) * 100
                     else 0)
              in case get_run_record d (the (run_id rm)) of
                   None \<Rightarrow> Raises (AttributeError ''NoneType object has no attribute run_name'')
                 | Some run_record \<Rightarrow>
                     Returns
                       \<lparr> stat_run_id = the (run_id rm),
                         stat_start_time = started,
                         stat_end_time = end_time rm,
                         stat_status = status rm,
                         stat_total_files = total_files rm,
                         stat_processed_files = processed_files rm,
                         stat_failed_files = failed_files rm,
                         stat_skipped_files = skipped_files rm,
                         stat_already_processed_files = already_processed_files rm,
                         stat_completion_percentage = completion_percentage,
                         stat_processing_time_seconds = real_of_int processing_time,
                         stat_run_name = rec_run_name run_record,
                         stat_collection = rec_collection run_record,
                         stat_embedding_model = rec_embedding_model run_record,
                         stat_chunk_size = rec_chunk_size run_record,
                         stat_chunk_overlap = rec_chunk_overlap run_record \<rparr>)))"

text \<open>
  The \<open>except\<close> branch of \<open>end_run\<close>: the status becomes \<open>failed\<close>, is
  persisted with a fresh end time, and the exception is re-raised.
\<close>

definition end_run_failed ::
  "timestamp \<Rightarrow> error \<Rightarrow> RunManager \<times> database \<Rightarrow> RunStatistics outcome \<times> (RunManager \<times> database)" where
  "end_run_failed now e st =
     (let (rm, d) = st;
          rm' = rm\<lparr> status := ''failed'' \<rparr>;
          d' = update_run (the (run_id rm'))
                 (no_update\<lparr> up_end_time := Some now, up_status := Some (status rm') \<rparr>) d
      in (Raises e, (rm', d')))"

text \<open>
  \<open>end_run\<close>. Unloading the models swallows its own exceptions. The final status
  is decided from the failed counter alone, whatever the status was on entry, and is
  written to the object and to the run row.
\<close>

definition end_run ::
  "timestamp \<Rightarrow> RunManager \<times> database \<Rightarrow> RunStatistics outcome \<times> (RunManager \<times> database)" where
  "end_run now st =
     (let (rm, d) = st in
      if \<not> truthy (run_id rm) then (Raises no_run_error, (rm, d))
      else
        (let rm1 = rm\<lparr> end_time := Some now \<rparr> in
         case start_time rm1 of
           None \<Rightarrow> end_run_failed now (TypeError ''unsupported operand type(s) for -'') (rm1, d)
         | Some started \<Rightarrow>
             (let total_processing_time = now - started;
                  rm2 = rm1\<lparr> status := (if failed_files rm1 > 0 then ''completed_with_errors''
                                          else ''completed'') \<rparr>;
                  run_record =
                    \<lparr> rec_run_id = the (run_id rm2), rec_start_time = None,
                      rec_end_time = Some now, rec_status = Some (status rm2),
                      rec_total_files = Some 0,
                      rec_processed_files = Some (processed_files rm2),
                      rec_failed_files = Some (failed_files rm2),
                      rec_skipped_files = Some (skipped_files rm2),
                      rec_already_processed_files = Some (already_processed_files rm2),
                      rec_total_processing_time = Some total_processing_time,
                      rec_run_name = None, rec_collection = None, rec_embedding_model = None,
                      rec_chunk_size = None, rec_chunk_overlap = None \<rparr>;
                  d1 = update_run (the (run_id rm2))
                         \<lparr> up_end_time = Some now, up_status = Some (status rm2),
                           up_processed_files = Some (processed_files rm2),
                           up_failed_files = Some (failed_files rm2),
                           up_skipped_files = Some (skipped_files rm2),
                           up_already_processed_files = Some (already_processed_files rm2),
                           up_total_processing_time = Some total_processing_time,
                           up_run_record = Some run_record \<rparr> d
              in case get_run_stats now (rm2, d1) of
                   Raises e \<Rightarrow> end_run_failed now e (rm2, d1)
                 | Returns stats \<Rightarrow> (Returns stats, (rm2, d1)))))"

section \<open>Worker pool scheduler (IngestionManager.distribute\_embeddings)\<close>

text \<open>
  \<open>[chunks[i:i + n] for i in range(0, len(chunks), n)]\<close>. The code calls it with
  \<open>n \<ge> 1\<close> only; \<open>n = 0\<close> (for which \<open>range\<close> raises) gives no batch here.
\<close>

function slices :: "nat \<Rightarrow> 'a list \<Rightarrow> 'a list list" where
  "slices n xs = (if n = 0 \<or> xs = [] then [] else take n xs # slices n (drop n xs))"
  by pat_completeness auto
termination
  by (relation "measure (\<lambda>(n, xs). length xs)") auto

definition batch_size_of :: "nat \<Rightarrow> nat \<Rightarrow> nat" where
  "batch_size_of total_chunks n_workers = max 1 (total_chunks div n_workers)"

definition embedding_batches :: "nat \<Rightarrow> 'a list \<Rightarrow> 'a list list" where
  "embedding_batches n_workers chunks = slices (batch_size_of (length chunks) n_workers) chunks"

text \<open>
  \<open>actor_tasks\<close> is a dictionary in insertion order: the pairs (actor, index of the
  batch the actor is working on). Assigning to a present key keeps its position,
  \<open>del\<close> removes the entry.
\<close>

definition initial_tasks :: "nat \<Rightarrow> nat \<Rightarrow> (nat \<times> nat) list" where
  "initial_tasks n_workers n_batches =
     map (\<lambda>i. (i, i)) (filter (\<lambda>i. i < n_batches) [0..<n_workers])"

definition delete_nth :: "nat \<Rightarrow> 'a list \<Rightarrow> 'a list" where
  "delete_nth k xs = take k xs @ drop (Suc k) xs"

text \<open>
  The dispatch loop. \<open>ray.wait(..., num_returns=1)\<close> reports one outstanding task
  as done; which one is outside the program's control, so the completion order is a
  parameter: the head \<open>c\<close> of \<open>completions\<close> selects entry \<open>c mod len(actor_tasks)\<close>
  (entry 0 once the list is used up). \<open>embed_chunks actor batch\<close> is the remote
  method of the actor; \<open>ray.get\<close> re-raises what it raised. The batch result is
  appended to \<open>results\<close> at the moment its task is reported done.
\<close>

function dispatch_loop ::
  "(nat \<Rightarrow> 'a list \<Rightarrow> 'v list outcome) \<Rightarrow> 'a list list \<Rightarrow> (nat \<times> nat) list \<Rightarrow> nat
     \<Rightarrow> 'v list \<Rightarrow> nat list \<Rightarrow> 'v list outcome" where
  "dispatch_loop embed_chunks batches actor_tasks next_batch_idx results completions =
     (if actor_tasks = [] then Returns results
      else
        (let k = (case completions of [] \<Rightarrow> 0 | c # cs \<Rightarrow> c mod length actor_tasks);
             (actor, b) = actor_tasks ! k
         in if \<not> b < length batches then Raises IndexError
            else
              (case embed_chunks actor (batches ! b) of
                 Raises e \<Rightarrow> Raises e
               | Returns batch_result \<Rightarrow>
                   (if next_batch_idx < length batches then
                      dispatch_loop embed_chunks batches
                        (actor_tasks[k := (actor, next_batch_idx)]) (Suc next_batch_idx)
                        (results @ batch_result) (tl completions)
                    else
                      dispatch_loop embed_chunks batches
                        (delete_nth k actor_tasks) next_batch_idx
                        (results @ batch_result) (tl completions)))))"
  by pat_completeness auto
termination
proof (relation "measure (\<lambda>(e, batches, tasks, next, res, cs). (length batches - next) + length tasks)",
       goal_cases)
  case 1
  show ?case by simp
next
  case 2
  then show ?case by simp
next
  case (3 embed_chunks batches actor_tasks next_batch_idx results completions k)
  from 3(1,2) have "k < length actor_tasks"
    by (cases completions) auto
  then have "length (delete_nth k actor_tasks) < length actor_tasks"
    by (simp add: delete_nth_def)
  then show ?case by simp
qed

definition distribute_embeddings ::
  "(nat \<Rightarrow> 'a list \<Rightarrow> 'v list outcome) \<Rightarrow> nat \<Rightarrow> 'a list \<Rightarrow> nat list \<Rightarrow> 'v list outcome" where
  "distribute_embeddings embed_chunks n_workers chunks completions =
     (if length chunks \<le> 1 \<or> n_workers \<le> 1 then
        (if n_workers = 0 then Raises IndexError else embed_chunks 0 chunks)
      else
        (let batches = embedding_batches n_workers chunks;
             actor_tasks = initial_tasks n_workers (length batches);
             next_batch_idx = n_workers
         in dispatch_loop embed_chunks batches actor_tasks next_batch_idx [] completions))"

section \<open>Orchestrator (core/ingestion.py, cli/main.py)\<close>






text \<open>
  The vector store: the objects \<open>store_chunks\<close> writes, chunk \<open>i\<close> with
  embedding \<open>i\<close>.
\<close>

record 'v stored_object =
  so_collection :: string
  so_text :: string
  so_vector :: 'v
  so_full_path :: string
  so_chunk_index :: nat
  so_total_chunks :: nat
  so_chunk_size :: int



text \<open>
  The configuration and the state of the ingestion manager.
\<close>

record AppConfig =
  cfg_collection :: string
  cfg_run_id :: "string option"
  cfg_run_name :: "string option"
  cfg_chunk_size :: int
  cfg_chunk_overlap :: int
  cfg_embedding_model :: string
  cfg_ray_workers :: nat

record 'v IngestionManager =
  config :: AppConfig
  db_manager :: database
  run_manager :: "RunManager option"
  weaviate_manager :: "'v stored_object list"












text \<open>
  The \<open>except Exception\<close> branch of \<open>ingest_pdfs\<close> (``Mark the run as failed''):
  with a run manager whose run id is set, the status attribute is set to
  \<open>failed\<close> and \<open>end_run\<close> is called; what \<open>end_run\<close> raises is swallowed.
\<close>

definition mark_run_failed :: "timestamp \<Rightarrow> 'v IngestionManager \<Rightarrow> 'v IngestionManager" where
  "mark_run_failed now im =
     (case run_manager im of
        None \<Rightarrow> im
      | Some rm \<Rightarrow>
          (if truthy (run_id rm) then
             (case end_run now (rm\<lparr> status := ''failed'' \<rparr>, db_manager im) of
                (res, (rm', d')) \<Rightarrow> im\<lparr> run_manager := Some rm', db_manager := d' \<rparr>)
           else im))"



section \<open>Predicates and sample inputs of the statements\<close>

definition primary_failed :: "pymupdf_analysis outcome \<Rightarrow> bool" where
  "primary_failed primary =
     (case primary of Raises e \<Rightarrow> True | Returns analysis \<Rightarrow> \<not> get_or (a_success analysis) False)"

definition has_damaged_high :: "PDFAnalysisResult \<Rightarrow> bool" where
  "has_damaged_high r = list_ex (\<lambda>i. issue_type i = DAMAGED \<and> severity i = ''high'') (issues r)"

definition text_file :: pdf_file where
  "text_file = \<lparr> file_exists = True, st_size = 5, file_content = Some ''hello'' \<rparr>"

definition truncated_pdf :: pdf_file where
  "truncated_pdf = \<lparr> file_exists = True, st_size = 9, file_content = Some ''%PDF-1.7 '' \<rparr>"

definition missing_client_method :: "pymupdf_analysis outcome" where
  "missing_client_method =
     Raises (AttributeError ''PyMuPDFInterface object has no attribute analyze_pdf'')"




definition scanned_issue :: "string \<Rightarrow> PDFIssue" where
  "scanned_issue sev =
     \<lparr> issue_type = SCANNED_IMAGE, description = ''Pages contain only images'',
       severity = sev, page_numbers = [], details = [] \<rparr>"

definition damaged_scan_result :: "PDFIssue list \<Rightarrow> PDFAnalysisResult" where
  "damaged_scan_result is =
     \<lparr> filepath = ''scan.pdf'', filesize = 2048, num_pages = 3, is_encrypted = False,
       is_damaged = True, encoding_types = [], fonts = [], issues = is, metadata = [] \<rparr>"



definition ledger_consistent :: "database \<Rightarrow> bool" where
  "ledger_consistent d = list_all (\<lambda>il. joins_collection d (il_collection il) il) (ingestion_log d)"

definition relabel_status :: "(ingestion_row \<Rightarrow> string) \<Rightarrow> database \<Rightarrow> database" where
  "relabel_status s d = d\<lparr> ingestion_log := map (\<lambda>il. il\<lparr> il_status := s il \<rparr>) (ingestion_log d) \<rparr>"

definition orphan_ledger :: database where
  "orphan_ledger =
     log_ingestion 0 ''/data/a.pdf'' ''Docs'' ''error'' None (Plain ''Analysis error: boom'')
       None (Some ''abc'') empty_database"

definition running_manager :: RunManager where
  "running_manager =
     new_run_manager\<lparr> run_id := Some ''run-1'', start_time := Some 100, status := ''running'',
                      total_files := 2, collection := Some ''Docs'' \<rparr>"

definition one_run_database :: database where
  "one_run_database = snd (create_run ''run-1'' 100 2
       (Some \<lparr> rec_run_id = ''run-1'', rec_start_time = Some 100, rec_end_time = None,
              rec_status = Some ''running'', rec_total_files = Some 2,
              rec_processed_files = Some 0, rec_failed_files = Some 0,
              rec_skipped_files = Some 0, rec_already_processed_files = Some 0,
              rec_total_processing_time = None, rec_run_name = None,
              rec_collection = Some ''Docs'', rec_embedding_model = None,
              rec_chunk_size = None, rec_chunk_overlap = None \<rparr>) empty_database)"

definition one_record_ledger :: database where
  "one_record_ledger =
     log_ingestion 101 ''/data/a.pdf'' ''Docs'' ''error'' None (Plain ''Ingestion error: boom'')
       (Some ''run-1'') (Some ''abc'') one_run_database"

definition five_chunks :: "string list" where
  "five_chunks = [''c0'', ''c1'', ''c2'', ''c3'', ''c4'']"

definition four_chunks :: "string list" where
  "four_chunks = [''c0'', ''c1'', ''c2'', ''c3'']"









text \<open>
  The chunks whose batches are still outstanding or not yet dispatched, in the order of
  \<open>actor_tasks\<close> followed by the undispatched batches.
\<close>

definition pending :: "'a list list \<Rightarrow> (nat \<times> nat) list \<Rightarrow> nat \<Rightarrow> 'a list" where
  "pending batches actor_tasks next_batch_idx =
     concat (map (\<lambda>(actor, b). batches ! b) actor_tasks) @ concat (drop next_batch_idx batches)"

text \<open>
  A worker pool in which every worker embeds each chunk of its batch with \<open>e\<close>.
\<close>

definition embed_with :: "('a \<Rightarrow> 'v) \<Rightarrow> nat \<Rightarrow> 'a list \<Rightarrow> 'v list outcome" where
  "embed_with e actor batch = Returns (map e batch)"

section \<open>Properties of the acceptance policy\<close>

lemma sublist_join:
  "x \<in> set xs \<Longrightarrow> sublist x (join sep xs)"
proof (induction sep xs rule: join.induct)
  case (1 sep)
  then show ?case by simp
next
  case (2 sep y)
  then show ?case by simp
next
  case (3 sep a b bs)
  show ?case
  proof (cases "x = a")
    case True
    then show ?thesis by simp
  next
    case False
    with 3 have "sublist x (join sep (b # bs))" by simp
    then obtain ps ss where "join sep (b # bs) = ps @ x @ ss"
      by (auto simp: sublist_def)
    then have "join sep (a # b # bs) = (a @ sep @ ps) @ x @ ss" by simp
    then show ?thesis unfolding sublist_def by blast
  qed
qed

lemma has_critical_issues_iff:
  "has_critical_issues r \<longleftrightarrow> (\<exists>i \<in> set (issues r). severity i = ''high'')"
  by (simp add: has_critical_issues_def list_ex_iff)

lemma is_pdf_acceptable_critical:
  assumes "has_critical_issues r"
  shows "is_pdf_acceptable r =
           (False,
            ''Critical issues detected: '' @
              join '', '' (map description (filter (\<lambda>issue. severity issue = ''high'') (issues r))),
            \<lparr> issues_found = [''critical_issues''],
              primary_rejection_reason = Some ''critical_issues'',
              all_issues = map issue_entry_of (issues r) \<rparr>)"
  using assms by (simp add: is_pdf_acceptable_def Let_def)

text \<open>
  Claim C4. Whenever the analysis result holds at least one issue whose severity is
  \<open>"high"\<close>, the acceptance policy rejects, and the description of every
  high-severity issue of the result occurs, as a contiguous substring, in the reason.
\<close>

theorem is_pdf_acceptable_rejects_high_severity:
  assumes "i \<in> set (issues r)" and "severity i = ''high''"
  shows "\<not> fst (is_pdf_acceptable r) \<and>
         (\<forall>h \<in> set (issues r). severity h = ''high'' \<longrightarrow>
              sublist (description h) (fst (snd (is_pdf_acceptable r))))"
proof -
  have crit: "has_critical_issues r"
    using assms by (auto simp: has_critical_issues_iff)
  let ?ds = "map description (filter (\<lambda>issue. severity issue = ''high'') (issues r))"
  have reason: "fst (snd (is_pdf_acceptable r)) = ''Critical issues detected: '' @ join '', '' ?ds"
    by (simp add: is_pdf_acceptable_critical [OF crit])
  have rej: "\<not> fst (is_pdf_acceptable r)"
    by (simp add: is_pdf_acceptable_critical [OF crit])
  have "sublist (description h) (fst (snd (is_pdf_acceptable r)))"
    if "h \<in> set (issues r)" and "severity h = ''high''" for h
  proof -
    from that have "description h \<in> set ?ds" by auto
    then have "sublist (description h) (join '', '' ?ds)" by (rule sublist_join)
    then obtain ps ss where "join '', '' ?ds = ps @ description h @ ss"
      by (auto simp: sublist_def)
    then have "fst (snd (is_pdf_acceptable r)) =
                 (''Critical issues detected: '' @ ps) @ description h @ ss"
      by (simp add: reason)
    then show ?thesis unfolding sublist_def by blast
  qed
  with rej show ?thesis by blast
qed

theorem is_pdf_acceptable_rejects_high_severity_witness:
  "\<not> fst (is_pdf_acceptable
      (damaged_scan_result [scanned_issue ''medium'', damaged_issue ''broken xref''])) \<and>
   sublist ''broken xref'' (fst (snd (is_pdf_acceptable
      (damaged_scan_result [scanned_issue ''medium'', damaged_issue ''broken xref'']))))"
  using is_pdf_acceptable_rejects_high_severity
    [of "damaged_issue ''broken xref''"
        "damaged_scan_result [scanned_issue ''medium'', damaged_issue ''broken xref'']"]
  by (simp add: damaged_scan_result_def scanned_issue_def damaged_issue_def)

text \<open>
  The literal reading of claim C5 fails: a damaged result with a SCANNED\_IMAGE issue
  that also holds a high-severity issue is rejected by the first rule, with the
  critical-issues reason and not with the damaged reason. The damaged results the
  analyzer builds itself all carry such a high-severity DAMAGED issue.
\<close>

theorem damaged_scanned_counterexample:
  "is_damaged (damaged_scan_result
      [scanned_issue ''medium'', damaged_issue ''File does not appear to be a valid PDF'']) \<and>
   scanned_issue ''medium'' \<in> set (issues (damaged_scan_result
        [scanned_issue ''medium'', damaged_issue ''File does not appear to be a valid PDF''])) \<and>
   issue_type (scanned_issue ''medium'') = SCANNED_IMAGE \<and>
   fst (snd (is_pdf_acceptable (damaged_scan_result
      [scanned_issue ''medium'', damaged_issue ''File does not appear to be a valid PDF''])))
     = ''Critical issues detected: File does not appear to be a valid PDF'' \<and>
   fst (snd (is_pdf_acceptable (damaged_scan_result
      [scanned_issue ''medium'', damaged_issue ''File does not appear to be a valid PDF''])))
     \<noteq> ''PDF is damaged''"
  by (simp add: damaged_scan_result_def scanned_issue_def damaged_issue_def
        is_pdf_acceptable_def has_critical_issues_def)

text \<open>
  Claim C5, amended. Every result with \<open>is_damaged\<close> set that holds a SCANNED\_IMAGE
  issue is rejected, never accepted with the scanned-image warning. The reason is the
  damaged reason when the result has no high-severity issue; when it has one, the
  first rule answers with the critical-issues reason.
\<close>

theorem damaged_outranks_scanned:
  assumes "is_damaged r"
    and "i \<in> set (issues r)" and "issue_type i = SCANNED_IMAGE"
  shows "\<not> fst (is_pdf_acceptable r) \<and>
         (if has_critical_issues r
          then fst (snd (is_pdf_acceptable r)) =
                 ''Critical issues detected: '' @
                   join '', '' (map description (filter (\<lambda>h. severity h = ''high'') (issues r))) \<and>
               primary_rejection_reason (snd (snd (is_pdf_acceptable r))) = Some ''critical_issues''
          else fst (snd (is_pdf_acceptable r)) = ''PDF is damaged'' \<and>
               primary_rejection_reason (snd (snd (is_pdf_acceptable r))) = Some ''damaged'')"
  using assms(1) by (simp add: is_pdf_acceptable_def Let_def)

theorem damaged_outranks_scanned_witness:
  "\<not> fst (is_pdf_acceptable (damaged_scan_result [scanned_issue ''medium''])) \<and>
   fst (snd (is_pdf_acceptable (damaged_scan_result [scanned_issue ''medium''])))
     = ''PDF is damaged'' \<and>
   primary_rejection_reason
     (snd (snd (is_pdf_acceptable (damaged_scan_result [scanned_issue ''medium'']))))
     = Some ''damaged''"
  using damaged_outranks_scanned
    [of "damaged_scan_result [scanned_issue ''medium'']" "scanned_issue ''medium''"]
  by (simp add: damaged_scan_result_def scanned_issue_def has_critical_issues_def)

section \<open>Properties of the analyzer\<close>

lemma prefix_take_signature:
  "prefix ''%PDF-'' (take 1024 bytes) \<longleftrightarrow> prefix ''%PDF-'' bytes"
proof
  assume "prefix ''%PDF-'' (take 1024 bytes)"
  then show "prefix ''%PDF-'' bytes"
    using take_is_prefix prefix_order.trans by blast
next
  assume p: "prefix ''%PDF-'' bytes"
  then obtain rest where "bytes = ''%PDF-'' @ rest" by (auto simp: prefix_def)
  then show "prefix ''%PDF-'' (take 1024 bytes)" by simp
qed

lemma is_valid_pdf_iff:
  "is_valid_pdf f \<longleftrightarrow> (\<exists>bytes. file_content f = Some bytes \<and> prefix ''%PDF-'' bytes)"
  by (auto simp: is_valid_pdf_def Let_def prefix_take_signature split: option.splits)

lemma mark_damaged_props:
  "is_damaged (mark_damaged d r)"
  "has_damaged_high (mark_damaged d r)"
  "issues (mark_damaged d r) = issues r @ [damaged_issue d]"
  by (simp_all add: mark_damaged_def has_damaged_high_def damaged_issue_def)

lemma analyze_file_invalid:
  assumes "file_exists f" and "\<not> is_valid_pdf f"
  shows "analyze_file path f primary opened =
           (Returns (mark_damaged ''File does not appear to be a valid PDF'' (initial_result path f)), [])"
  using assms by (simp add: analyze_file_def)

lemma analyze_file_both_fail:
  assumes "file_exists f" and "is_valid_pdf f" and "primary_failed primary"
    and "fst (analyze_with_pikepdf opened (initial_result path f)) = Raises e2"
  shows "\<exists>d. analyze_file path f primary opened =
           (Returns (mark_damaged d (snd (analyze_with_pikepdf opened (initial_result path f)))),
            [PyMuPDF, PikePDF])"
proof (cases primary)
  case (Returns analysis)
  with assms show ?thesis
    by (cases "analyze_with_pikepdf opened (initial_result path f)")
       (auto simp: analyze_file_def primary_failed_def)
next
  case (Raises e)
  with assms show ?thesis
    by (cases "analyze_with_pikepdf opened (initial_result path f)")
       (auto simp: analyze_file_def primary_failed_def)
qed

lemma analyze_file_returns:
  assumes "file_exists f"
  shows "\<exists>r tr. analyze_file path f primary opened = (Returns r, tr)"
proof (cases "is_valid_pdf f")
  case False
  with assms show ?thesis by (simp add: analyze_file_invalid)
next
  case True
  obtain o' r' where pk: "analyze_with_pikepdf opened (initial_result path f) = (o', r')"
    by (cases "analyze_with_pikepdf opened (initial_result path f)")
  show ?thesis
    using assms True pk
    by (cases primary; cases o') (auto simp: analyze_file_def Let_def)
qed

text \<open>
  Claim C8. For an existing file the analyzer never raises. If the content does not
  begin with the signature \<open>%PDF-\<close>, it returns, with no parser invoked, a result
  that is marked damaged and holds a DAMAGED issue of severity high. If the content
  has the signature, the primary parse fails (the client raises, or answers without
  \<open>success\<close>) and the fallback raises as well, it returns a result marked damaged
  with a DAMAGED issue of severity high, after both parsers were invoked. (A password
  error is handled inside the fallback, which then returns normally with the result
  marked encrypted; it is not a failure of the fallback.)
\<close>

theorem analyze_file_malformed_is_damaged:
  "(file_exists f \<and> file_content f = Some bytes \<and> \<not> prefix ''%PDF-'' bytes \<longrightarrow>
      (\<exists>r. analyze_file path f primary opened = (Returns r, []) \<and>
           is_damaged r \<and> has_damaged_high r)) \<and>
   (file_exists f \<and> is_valid_pdf f \<and> primary_failed primary \<and>
    fst (analyze_with_pikepdf opened (initial_result path f)) = Raises e2 \<longrightarrow>
      (\<exists>r. analyze_file path f primary opened = (Returns r, [PyMuPDF, PikePDF]) \<and>
           is_damaged r \<and> has_damaged_high r)) \<and>
   (file_exists f \<longrightarrow> (\<exists>r tr. analyze_file path f primary opened = (Returns r, tr)))"
proof (intro conjI impI)
  assume a: "file_exists f \<and> file_content f = Some bytes \<and> \<not> prefix ''%PDF-'' bytes"
  then have "\<not> is_valid_pdf f" by (simp add: is_valid_pdf_iff)
  with a show "\<exists>r. analyze_file path f primary opened = (Returns r, []) \<and>
           is_damaged r \<and> has_damaged_high r"
    by (simp add: analyze_file_invalid mark_damaged_props)
next
  assume a: "file_exists f \<and> is_valid_pdf f \<and> primary_failed primary \<and>
    fst (analyze_with_pikepdf opened (initial_result path f)) = Raises e2"
  then obtain d where "analyze_file path f primary opened =
           (Returns (mark_damaged d (snd (analyze_with_pikepdf opened (initial_result path f)))),
            [PyMuPDF, PikePDF])"
    using analyze_file_both_fail by blast
  then show "\<exists>r. analyze_file path f primary opened = (Returns r, [PyMuPDF, PikePDF]) \<and>
           is_damaged r \<and> has_damaged_high r"
    by (simp add: mark_damaged_props)
next
  assume "file_exists f"
  then show "\<exists>r tr. analyze_file path f primary opened = (Returns r, tr)"
    by (rule analyze_file_returns)
qed

theorem analyze_file_malformed_is_damaged_witness:
  "(\<exists>r. analyze_file ''notes.pdf'' text_file missing_client_method (Raises (OtherError ''unused''))
          = (Returns r, []) \<and> is_damaged r \<and> has_damaged_high r) \<and>
   (\<exists>r. analyze_file ''cut.pdf'' truncated_pdf missing_client_method
            (Raises (OtherError ''unable to find trailer dictionary''))
          = (Returns r, [PyMuPDF, PikePDF]) \<and> is_damaged r \<and> has_damaged_high r) \<and>
   (\<exists>r tr. analyze_file ''cut.pdf'' truncated_pdf missing_client_method
            (Raises (OtherError ''unable to find trailer dictionary'')) = (Returns r, tr))"
  using analyze_file_malformed_is_damaged
          [of text_file "''hello''" "''notes.pdf''" missing_client_method
              "Raises (OtherError ''unused'')"]
        analyze_file_malformed_is_damaged
          [of truncated_pdf "''%PDF-1.7 ''" "''cut.pdf''" missing_client_method
              "Raises (OtherError ''unable to find trailer dictionary'')"
              "OtherError ''unable to find trailer dictionary''"]
  by (simp add: text_file_def truncated_pdf_def missing_client_method_def is_valid_pdf_def
        primary_failed_def analyze_with_pikepdf_def)



















section \<open>Properties of the resumption ledger and the run counters\<close>

lemma latest_row_None: "latest_row xs = None \<longleftrightarrow> xs = []"
  by (induction xs) (auto split: option.splits)

lemma latest_row_Some:
  "latest_row xs = Some b \<Longrightarrow> b \<in> set xs \<and> (\<forall>x \<in> set xs. il_id x \<le> il_id b)"
proof (induction xs arbitrary: b)
  case Nil
  then show ?case by simp
next
  case (Cons a xs)
  show ?case
  proof (cases "latest_row xs")
    case None
    then have "xs = []" by (simp add: latest_row_None)
    with Cons.prems show ?thesis by simp
  next
    case (Some best)
    from Cons.IH [OF Some] have ih: "best \<in> set xs" "\<forall>x \<in> set xs. il_id x \<le> il_id best"
      by simp_all
    show ?thesis
    proof (cases "il_id best < il_id a")
      case True
      with Some Cons.prems have "b = a" by simp
      with True ih show ?thesis by fastforce
    next
      case False
      with Some Cons.prems have "b = best" by simp
      with False ih show ?thesis by fastforce
    qed
  qed
qed

lemma get_ingestion_by_fingerprint_found:
  assumes "il \<in> set (ingestion_log d)" and "il_file_fingerprint il = Some f"
    and "joins_collection d c il"
  shows "\<exists>prev. get_ingestion_by_fingerprint d f c = Some prev \<and>
           prev \<in> set (ingestion_log d) \<and> il_file_fingerprint prev = Some f \<and>
           joins_collection d c prev \<and> il_id il \<le> il_id prev"
proof -
  let ?ms = "filter (\<lambda>il. il_file_fingerprint il = Some f \<and> joins_collection d c il) (ingestion_log d)"
  from assms have mem: "il \<in> set ?ms" by simp
  then have "?ms \<noteq> []" by (metis empty_iff list.set(1))
  then have "latest_row ?ms \<noteq> None" by (simp only: latest_row_None not_False_eq_True)
  then obtain prev where prev: "latest_row ?ms = Some prev" by auto
  from latest_row_Some [OF prev] mem have "prev \<in> set ?ms" "il_id il \<le> il_id prev" by auto
  with prev show ?thesis by (auto simp: get_ingestion_by_fingerprint_def)
qed

lemma joins_collection_relabel:
  "joins_collection (relabel_status s d) c (il\<lparr> il_status := v \<rparr>) = joins_collection d c il"
  by (simp add: joins_collection_def relabel_status_def)

lemma relabel_found:
  assumes "il \<in> set (ingestion_log d)" and "il_file_fingerprint il = Some f"
    and "joins_collection d c il"
  shows "fst (file_needs_processing (relabel_status s d) f c) = False"
proof -
  let ?il = "il\<lparr> il_status := s il \<rparr>"
  have "?il \<in> set (ingestion_log (relabel_status s d))"
    using assms(1) by (auto simp: relabel_status_def)
  moreover have "il_file_fingerprint ?il = Some f" using assms(2) by simp
  moreover have "joins_collection (relabel_status s d) c ?il"
    using assms(3) by (simp add: joins_collection_relabel)
  ultimately obtain prev where "get_ingestion_by_fingerprint (relabel_status s d) f c = Some prev"
    using get_ingestion_by_fingerprint_found by blast
  then show ?thesis by (simp add: file_needs_processing_def)
qed

text \<open>
  Claim C3, amended. The lookup matches a record to a collection through the record's
  owning run: if the ledger holds a record with fingerprint \<open>f\<close> whose run is
  registered for collection \<open>c\<close>, then \<open>file_needs_processing\<close> returns false
  together with the most recent such record, whatever the statuses of the records are
  (relabelling every status leaves the answer false). In a ledger where every record's
  run carries the record's own collection, as the write path keeps it, a record with
  fingerprint \<open>f\<close> and collection \<open>c\<close> is enough.
\<close>

theorem file_needs_processing_previous_record:
  "(il \<in> set (ingestion_log d) \<and> il_file_fingerprint il = Some f \<and> joins_collection d c il \<longrightarrow>
      (\<exists>prev. file_needs_processing d f c = (False, Some prev) \<and>
           prev \<in> set (ingestion_log d) \<and> il_file_fingerprint prev = Some f \<and>
           joins_collection d c prev \<and> il_id il \<le> il_id prev) \<and>
      fst (file_needs_processing (relabel_status s d) f c) = False) \<and>
   (ledger_consistent d \<and> il \<in> set (ingestion_log d) \<and> il_file_fingerprint il = Some f \<and>
    il_collection il = c \<longrightarrow>
      (\<exists>prev. file_needs_processing d f c = (False, Some prev) \<and>
           prev \<in> set (ingestion_log d) \<and> il_file_fingerprint prev = Some f \<and>
           il_id il \<le> il_id prev))"
proof (intro conjI impI)
  assume a: "il \<in> set (ingestion_log d) \<and> il_file_fingerprint il = Some f \<and> joins_collection d c il"
  then obtain prev where "get_ingestion_by_fingerprint d f c = Some prev"
    "prev \<in> set (ingestion_log d)" "il_file_fingerprint prev = Some f"
    "joins_collection d c prev" "il_id il \<le> il_id prev"
    using get_ingestion_by_fingerprint_found by blast
  then show "\<exists>prev. file_needs_processing d f c = (False, Some prev) \<and>
           prev \<in> set (ingestion_log d) \<and> il_file_fingerprint prev = Some f \<and>
           joins_collection d c prev \<and> il_id il \<le> il_id prev"
    by (simp add: file_needs_processing_def)
  from a show "fst (file_needs_processing (relabel_status s d) f c) = False"
    using relabel_found by blast
next
  assume a: "ledger_consistent d \<and> il \<in> set (ingestion_log d) \<and> il_file_fingerprint il = Some f \<and>
    il_collection il = c"
  then have "joins_collection d c il"
    by (auto simp: ledger_consistent_def list_all_iff)
  with a obtain prev where "get_ingestion_by_fingerprint d f c = Some prev"
    "prev \<in> set (ingestion_log d)" "il_file_fingerprint prev = Some f" "il_id il \<le> il_id prev"
    using get_ingestion_by_fingerprint_found by blast
  then show "\<exists>prev. file_needs_processing d f c = (False, Some prev) \<and>
           prev \<in> set (ingestion_log d) \<and> il_file_fingerprint prev = Some f \<and>
           il_id il \<le> il_id prev"
    by (simp add: file_needs_processing_def)
qed

text \<open>
  The literal reading of claim C3 fails: a record with the fingerprint and the
  collection that was logged without a run (the default \<open>run_id=None\<close> of
  \<open>log_ingestion\<close>) joins no run, so the lookup finds nothing and the file is
  reported as needing processing.
\<close>

theorem file_needs_processing_orphan_counterexample:
  "ingestion_log orphan_ledger \<noteq> [] \<and>
   il_file_fingerprint (hd (ingestion_log orphan_ledger)) = Some ''abc'' \<and>
   il_collection (hd (ingestion_log orphan_ledger)) = ''Docs'' \<and>
   il_status (hd (ingestion_log orphan_ledger)) = ''error'' \<and>
   file_needs_processing orphan_ledger ''abc'' ''Docs'' = (True, None)"
  by (simp add: orphan_ledger_def log_ingestion_def empty_database_def Let_def
        file_needs_processing_def get_ingestion_by_fingerprint_def joins_collection_def)

theorem file_needs_processing_previous_record_witness:
  "(\<exists>prev. file_needs_processing one_record_ledger ''abc'' ''Docs'' = (False, Some prev) \<and>
       il_status prev = ''error'' \<and> il_file_fingerprint prev = Some ''abc'') \<and>
   fst (file_needs_processing (relabel_status (\<lambda>il. ''success'') one_record_ledger) ''abc'' ''Docs'')
     = False \<and>
   ledger_consistent one_record_ledger"
proof -
  let ?il = "hd (ingestion_log one_record_ledger)"
  have mem: "?il \<in> set (ingestion_log one_record_ledger)"
    by (simp add: one_record_ledger_def log_ingestion_def one_run_database_def create_run_def
          empty_database_def Let_def)
  have fp: "il_file_fingerprint ?il = Some ''abc''" and col: "il_collection ?il = ''Docs''"
    by (simp_all add: one_record_ledger_def log_ingestion_def one_run_database_def create_run_def
          empty_database_def Let_def)
  have jc: "joins_collection one_record_ledger ''Docs'' ?il"
    by (simp add: one_record_ledger_def log_ingestion_def one_run_database_def create_run_def
          empty_database_def Let_def joins_collection_def)
  have lc: "ledger_consistent one_record_ledger"
    by (simp add: one_record_ledger_def log_ingestion_def one_run_database_def create_run_def
          empty_database_def Let_def joins_collection_def ledger_consistent_def)
  have st: "\<forall>prev \<in> set (ingestion_log one_record_ledger). il_status prev = ''error''"
    by (simp add: one_record_ledger_def log_ingestion_def one_run_database_def create_run_def
          empty_database_def Let_def)
  from file_needs_processing_previous_record
         [of ?il one_record_ledger "''abc''" "''Docs''" "\<lambda>il. ''success''"] mem fp jc lc col st
  show ?thesis by blast
qed

lemma joins_collection_log_ingestion:
  "joins_collection (log_ingestion now p c s a m r fp d) c' il = joins_collection d c' il"
  by (simp add: joins_collection_def log_ingestion_def Let_def)

lemma ledger_consistent_log_ingestion:
  assumes "ledger_consistent d"
    and "list_ex (\<lambda>r. rr_run_id r = rid \<and> rr_collection r = Some c) (runs d)"
  shows "ledger_consistent (log_ingestion now p c s a m (Some rid) fp d)"
proof -
  have old: "list_all (\<lambda>il. joins_collection d (il_collection il) il) (ingestion_log d)"
    using assms(1) by (simp add: ledger_consistent_def)
  have new: "list_ex (\<lambda>r. Some rid = Some (rr_run_id r) \<and> rr_collection r = Some c) (runs d)"
    using assms(2) by (auto simp: list_ex_iff)
  show ?thesis
    unfolding ledger_consistent_def
    using old new
    by (simp add: joins_collection_log_ingestion)
       (simp add: log_ingestion_def Let_def joins_collection_def)
qed

lemma joins_collection_create_run:
  "joins_collection d c il \<Longrightarrow> joins_collection (snd (create_run rid t n rr d)) c il"
  by (auto simp: joins_collection_def create_run_def list_ex_iff)

lemma ledger_consistent_create_run:
  "ledger_consistent d \<Longrightarrow> ledger_consistent (snd (create_run rid t n rr d))"
proof -
  assume a: "ledger_consistent d"
  have same: "ingestion_log (snd (create_run rid t n rr d)) = ingestion_log d"
    by (simp add: create_run_def)
  show ?thesis
    unfolding ledger_consistent_def same list_all_iff
    using a joins_collection_create_run
    by (auto simp: ledger_consistent_def list_all_iff)
qed

lemma apply_update_keeps_collection:
  "record_col (up_run_record u) rec_collection = None \<Longrightarrow>
     rr_run_id (apply_update u row) = rr_run_id row \<and>
     rr_collection (apply_update u row) = rr_collection row"
  by (simp add: apply_update_def set_col_def)

lemma ledger_consistent_update_run:
  assumes "ledger_consistent d" and "record_col (up_run_record u) rec_collection = None"
  shows "ledger_consistent (update_run rid u d)"
proof -
  have "joins_collection (update_run rid u d) c il" if "joins_collection d c il" for c il
  proof -
    from that obtain r where r: "r \<in> set (runs d)" "il_run_id il = Some (rr_run_id r)"
      "rr_collection r = Some c"
      by (auto simp: joins_collection_def list_ex_iff)
    let ?r = "if rr_run_id r = rid then apply_update u r else r"
    have "?r \<in> set (runs (update_run rid u d))"
      using r(1) by (auto simp: update_run_def)
    moreover have "il_run_id il = Some (rr_run_id ?r)" "rr_collection ?r = Some c"
      using r(2,3) apply_update_keeps_collection [OF assms(2)] by auto
    ultimately show ?thesis
      unfolding joins_collection_def list_ex_iff by blast
  qed
  moreover have "ingestion_log (update_run rid u d) = ingestion_log d"
    by (simp add: update_run_def)
  ultimately show ?thesis
    using assms(1) by (auto simp: ledger_consistent_def list_all_iff)
qed

text \<open>
  Claim C10. With no run started (\<open>run_id\<close> is \<open>None\<close> or empty) each of the four
  increment operations raises \<open>ValueError\<close> and leaves the manager, hence every
  counter, and the database unchanged. With a run in progress each returns without
  raising, and the manager differs from the one before only in the operation's own
  counter, raised by one; \<open>increment_already_processed\<close> raises
  \<open>already_processed_files\<close> and \<open>skipped_files\<close> by one each.
\<close>

theorem increment_counters:
  "(\<not> truthy (run_id rm) \<longrightarrow>
      increment_processed (rm, d) =
        (Raises (ValueError ''No run in progress. Call start_run() first.''), (rm, d)) \<and>
      increment_failed (rm, d) =
        (Raises (ValueError ''No run in progress. Call start_run() first.''), (rm, d)) \<and>
      increment_skipped (rm, d) =
        (Raises (ValueError ''No run in progress. Call start_run() first.''), (rm, d)) \<and>
      increment_already_processed (rm, d) =
        (Raises (ValueError ''No run in progress. Call start_run() first.''), (rm, d))) \<and>
   (truthy (run_id rm) \<longrightarrow>
      (\<exists>d'. increment_processed (rm, d) =
         (Returns (processed_files rm + 1),
          (rm\<lparr> processed_files := processed_files rm + 1 \<rparr>, d'))) \<and>
      (\<exists>d'. increment_failed (rm, d) =
         (Returns (failed_files rm + 1),
          (rm\<lparr> failed_files := failed_files rm + 1 \<rparr>, d'))) \<and>
      (\<exists>d'. increment_skipped (rm, d) =
         (Returns (skipped_files rm + 1),
          (rm\<lparr> skipped_files := skipped_files rm + 1 \<rparr>, d'))) \<and>
      (\<exists>d'. increment_already_processed (rm, d) =
         (Returns (already_processed_files rm + 1),
          (rm\<lparr> already_processed_files := already_processed_files rm + 1,
                skipped_files := skipped_files rm + 1 \<rparr>, d'))))"
  by (simp add: increment_processed_def increment_failed_def increment_skipped_def
        increment_already_processed_def no_run_error_def Let_def)

theorem increment_counters_witness:
  "increment_skipped (new_run_manager, empty_database) =
     (Raises (ValueError ''No run in progress. Call start_run() first.''),
      (new_run_manager, empty_database)) \<and>
   (\<exists>d'. increment_already_processed (running_manager, one_run_database) =
      (Returns 1, (running_manager\<lparr> already_processed_files := 1, skipped_files := 1 \<rparr>, d')))"
  using increment_counters [of new_run_manager empty_database]
        increment_counters [of running_manager one_run_database]
  by (simp add: new_run_manager_def running_manager_def truthy_def)


section \<open>Properties of the scheduler\<close>

lemma slices_unfold:
  "0 < n \<Longrightarrow> xs \<noteq> [] \<Longrightarrow> slices n xs = take n xs # slices n (drop n xs)"
  by simp

lemma slices_Nil [simp]: "slices n [] = []"
  by simp

declare slices.simps [simp del]

lemma concat_slices: "0 < n \<Longrightarrow> concat (slices n xs) = xs"
proof (induction n xs rule: slices.induct)
  case (1 n xs)
  show ?case
  proof (cases "xs = []")
    case True
    then show ?thesis by simp
  next
    case False
    with 1 show ?thesis by (simp add: slices_unfold)
  qed
qed

lemma length_slices: "0 < n \<Longrightarrow> length (slices n xs) = (length xs + n - 1) div n"
proof (induction n xs rule: slices.induct)
  case (1 n xs)
  show ?case
  proof (cases "xs = []")
    case True
    with 1(2) show ?thesis by simp
  next
    case False
    with 1 have ih: "length (slices n (drop n xs)) = (length xs - n + n - 1) div n" by simp
    have step: "length (slices n xs) = Suc (length (slices n (drop n xs)))"
      using False 1(2) by (simp add: slices_unfold)
    show ?thesis
    proof (cases "length xs \<le> n")
      case True
      from False have lpos: "0 < length xs" by simp
      have "n * 1 \<le> length xs + n - 1" using lpos by linarith
      moreover have "length xs + n - 1 < n * Suc 1" using True lpos 1(2) by simp
      ultimately have "(length xs + n - 1) div n = 1"
        by (rule div_nat_eqI)
      moreover from True have "slices n (drop n xs) = []" by simp
      ultimately show ?thesis using step by simp
    next
      case gt: False
      then have "length xs + n - 1 = (length xs - n + n - 1) + n" by simp
      then have "(length xs + n - 1) div n = Suc ((length xs - n + n - 1) div n)"
        using 1(2) by (metis div_add_self2 Suc_eq_plus1 less_numeral_extra(3))
      with ih step show ?thesis by simp
    qed
  qed
qed

lemma slices_member_length:
  "0 < n \<Longrightarrow> b \<in> set (slices n xs) \<Longrightarrow> 0 < length b \<and> length b \<le> n"
proof (induction n xs rule: slices.induct)
  case (1 n xs)
  show ?case
  proof (cases "xs = []")
    case True
    with 1(3) show ?thesis by simp
  next
    case False
    with 1(2,3) have "b = take n xs \<or> b \<in> set (slices n (drop n xs))"
      by (simp add: slices_unfold)
    then show ?thesis
    proof
      assume "b = take n xs"
      with False 1(2) show ?thesis by simp
    next
      assume "b \<in> set (slices n (drop n xs))"
      with 1 False show ?thesis by simp
    qed
  qed
qed

lemma slices_full_before_last:
  "0 < n \<Longrightarrow> Suc i < length (slices n xs) \<Longrightarrow> length (slices n xs ! i) = n"
proof (induction n xs arbitrary: i rule: slices.induct)
  case (1 n xs)
  show ?case
  proof (cases "xs = []")
    case True
    with 1(3) show ?thesis by simp
  next
    case False
    have unf: "slices n xs = take n xs # slices n (drop n xs)"
      using False 1(2) by (simp add: slices_unfold)
    from 1(3) unf have rest: "slices n (drop n xs) \<noteq> []" by auto
    then have "drop n xs \<noteq> []" by auto
    then have long: "n < length xs" by simp
    show ?thesis
    proof (cases i)
      case 0
      with unf long show ?thesis by simp
    next
      case (Suc j)
      with 1(3) unf have "Suc j < length (slices n (drop n xs))" by simp
      with 1(1) [of j] False 1(2) have "length (slices n (drop n xs) ! j) = n" by simp
      with Suc unf show ?thesis by simp
    qed
  qed
qed

lemma batch_count_divides:
  assumes "1 < n" and "0 < m" and "n dvd m"
  shows "(m + batch_size_of m n - 1) div batch_size_of m n = n"
proof -
  from assms obtain q where m: "m = n * q" by (auto simp: dvd_def)
  with assms(2) have q: "0 < q" by (cases q) auto
  from m assms(1) have "m div n = q" by simp
  with q have bs: "batch_size_of m n = q" by (simp add: batch_size_of_def)
  have "(n * q + q - 1) div q = n"
    using q by (intro div_nat_eqI) (auto simp: algebra_simps)
  with bs m show ?thesis by simp
qed

lemma batch_count_few_chunks:
  assumes "m < n"
  shows "(m + batch_size_of m n - 1) div batch_size_of m n = m"
  using assms by (simp add: batch_size_of_def)

lemma batch_count_surplus:
  assumes "n \<le> m" and "0 < n" and "\<not> n dvd m"
  shows "n < (m + batch_size_of m n - 1) div batch_size_of m n"
proof -
  let ?q = "m div n"
  from assms have q: "0 < ?q" by (simp add: div_greater_zero_iff)
  then have bs: "batch_size_of m n = ?q" by (simp add: batch_size_of_def)
  from assms(3) have r: "0 < m mod n" by (simp add: dvd_eq_mod_eq_0)
  have "m = ?q * n + m mod n" by simp
  with r have "?q * n + 1 \<le> m" by linarith
  then have "?q * (n + 1) \<le> m + ?q - 1" using q by (simp add: algebra_simps)
  then have "(?q * (n + 1)) div ?q \<le> (m + ?q - 1) div ?q" by (rule div_le_mono)
  with q have "n + 1 \<le> (m + ?q - 1) div ?q" by simp
  with bs show ?thesis by simp
qed

text \<open>
  Claim C6, amended. On the general path (more than one chunk, more than one worker)
  the chunks are cut, in order, into contiguous batches of size
  \<open>max(1, total // N)\<close>: every batch but the last has exactly that size and the
  last one holds between one and that many chunks. The number of batches is the
  ceiling of \<open>total / batch_size\<close>. It equals \<open>N\<close>, with batch \<open>i\<close> handed to
  worker \<open>i\<close> up front, when \<open>N\<close> divides \<open>total\<close>; it equals \<open>total\<close>, fewer than
  the workers, when \<open>total < N\<close>; and it exceeds \<open>N\<close> when \<open>N \<le> total\<close> and \<open>N\<close>
  does not divide \<open>total\<close>, the surplus being handed out by the dispatch loop.
\<close>

theorem embedding_batches_partition:
  assumes "1 < length chunks" and "1 < n_workers"
  shows "concat (embedding_batches n_workers chunks) = chunks \<and>
         (\<forall>i. Suc i < length (embedding_batches n_workers chunks) \<longrightarrow>
              length (embedding_batches n_workers chunks ! i) =
                max 1 (length chunks div n_workers)) \<and>
         embedding_batches n_workers chunks \<noteq> [] \<and>
         0 < length (last (embedding_batches n_workers chunks)) \<and>
         length (last (embedding_batches n_workers chunks)) \<le> max 1 (length chunks div n_workers) \<and>
         length (embedding_batches n_workers chunks) =
           (length chunks + max 1 (length chunks div n_workers) - 1)
             div max 1 (length chunks div n_workers) \<and>
         (n_workers dvd length chunks \<longrightarrow>
            length (embedding_batches n_workers chunks) = n_workers \<and>
            initial_tasks n_workers (length (embedding_batches n_workers chunks)) =
              map (\<lambda>i. (i, i)) [0..<n_workers]) \<and>
         (length chunks < n_workers \<longrightarrow>
            length (embedding_batches n_workers chunks) = length chunks) \<and>
         (n_workers \<le> length chunks \<and> \<not> n_workers dvd length chunks \<longrightarrow>
            n_workers < length (embedding_batches n_workers chunks))"
proof -
  let ?bs = "batch_size_of (length chunks) n_workers"
  let ?bt = "embedding_batches n_workers chunks"
  have bs_def: "?bs = max 1 (length chunks div n_workers)" by (simp add: batch_size_of_def)
  have pos: "0 < ?bs" by (simp add: batch_size_of_def)
  have bt: "?bt = slices ?bs chunks" by (simp add: embedding_batches_def)
  have c1: "concat ?bt = chunks" using pos by (simp add: bt concat_slices)
  have c2: "\<forall>i. Suc i < length ?bt \<longrightarrow> length (?bt ! i) = ?bs"
    using pos by (simp add: bt slices_full_before_last)
  have len: "length ?bt = (length chunks + ?bs - 1) div ?bs"
    using pos by (simp add: bt length_slices)
  have ne: "?bt \<noteq> []"
  proof
    assume "?bt = []"
    with c1 have "chunks = []" by simp
    with assms(1) show False by simp
  qed
  then have "last ?bt \<in> set ?bt" by simp
  then have c3: "0 < length (last ?bt) \<and> length (last ?bt) \<le> ?bs"
    using pos slices_member_length [of ?bs "last ?bt" chunks] by (simp add: bt)
  have c4: "n_workers dvd length chunks \<longrightarrow>
            length ?bt = n_workers \<and>
            initial_tasks n_workers (length ?bt) = map (\<lambda>i. (i, i)) [0..<n_workers]"
  proof
    assume d: "n_workers dvd length chunks"
    from assms(1) have "0 < length chunks" by linarith
    from batch_count_divides [OF assms(2) this d] have "length ?bt = n_workers"
      by (simp add: len)
    then show "length ?bt = n_workers \<and>
            initial_tasks n_workers (length ?bt) = map (\<lambda>i. (i, i)) [0..<n_workers]"
      by (simp add: initial_tasks_def)
  qed
  have c5: "length chunks < n_workers \<longrightarrow> length ?bt = length chunks"
    using batch_count_few_chunks [of "length chunks" n_workers] by (simp add: len)
  have c6: "n_workers \<le> length chunks \<and> \<not> n_workers dvd length chunks \<longrightarrow> n_workers < length ?bt"
    using batch_count_surplus [of n_workers "length chunks"] assms(2) by (simp add: len)
  from c1 c2 ne c3 len c4 c5 c6 show ?thesis
    unfolding bs_def by blast
qed

theorem embedding_batches_partition_witness:
  "embedding_batches 2 five_chunks = [[''c0'', ''c1''], [''c2'', ''c3''], [''c4'']] \<and>
   concat (embedding_batches 2 five_chunks) = five_chunks \<and>
   2 < length (embedding_batches 2 five_chunks) \<and>
   length (embedding_batches 2 four_chunks) = 2 \<and>
   initial_tasks 2 (length (embedding_batches 2 four_chunks)) = map (\<lambda>i. (i, i)) [0..<2] \<and>
   length (embedding_batches 7 five_chunks) = length five_chunks"
proof -
  have five: "embedding_batches 2 five_chunks = [[''c0'', ''c1''], [''c2'', ''c3''], [''c4'']]"
    by (simp add: embedding_batches_def batch_size_of_def five_chunks_def slices.simps)
  have h5: "1 < length five_chunks" and h4: "1 < length four_chunks"
    by (simp_all add: five_chunks_def four_chunks_def)
  have d4: "(2::nat) dvd length four_chunks" by (simp add: four_chunks_def)
  have nd5: "(2::nat) \<le> length five_chunks \<and> \<not> 2 dvd length five_chunks"
    by (simp add: five_chunks_def)
  have lt5: "length five_chunks < 7" by (simp add: five_chunks_def)
  have w2: "(1::nat) < 2" and w7: "(1::nat) < 7" by simp_all
  note A = embedding_batches_partition [OF h5 w2]
  note B = embedding_batches_partition [OF h4 w2]
  note C = embedding_batches_partition [OF h5 w7]
  from A have a1: "concat (embedding_batches 2 five_chunks) = five_chunks" by simp
  from A nd5 have a2: "2 < length (embedding_batches 2 five_chunks)" by blast
  from B d4 have b1: "length (embedding_batches 2 four_chunks) = 2" by blast
  from B d4 have b2: "initial_tasks 2 (length (embedding_batches 2 four_chunks)) =
                        map (\<lambda>i. (i, i)) [0..<2]" by blast
  from C lt5 have c1: "length (embedding_batches 7 five_chunks) = length five_chunks" by blast
  from five a1 a2 b1 b2 c1 show ?thesis by blast
qed

text \<open>
  The literal reading of claim C6 fails for five chunks and two workers: the batch
  size is \<open>5 // 2 = 2\<close>, not the ceiling 3, and there are three batches for two
  workers.
\<close>

theorem embedding_batches_counterexample:
  "1 < length five_chunks \<and>
   embedding_batches 2 five_chunks = [[''c0'', ''c1''], [''c2'', ''c3''], [''c4'']] \<and>
   \<not> length (embedding_batches 2 five_chunks) \<le> 2 \<and>
   length (hd (embedding_batches 2 five_chunks)) \<noteq> (length five_chunks + 2 - 1) div 2"
  by (simp add: embedding_batches_def batch_size_of_def five_chunks_def slices.simps)

text \<open>
  Claim C1 does not hold of the code. With one worker the fast path returns the
  vectors in chunk order, and with two workers it does so when the first batch is
  reported done first. When the second worker's batch is reported done first, its
  vectors come first in the output: \<open>results.extend\<close> follows completion order,
  and no batch position is recorded.
\<close>

theorem distribute_embeddings_follows_completion_order:
  "distribute_embeddings (embed_with e) 1 [''c0'', ''c1''] [1] = Returns [e ''c0'', e ''c1''] \<and>
   distribute_embeddings (embed_with e) 2 [''c0'', ''c1''] [0] = Returns [e ''c0'', e ''c1''] \<and>
   distribute_embeddings (embed_with e) 2 [''c0'', ''c1''] [1] = Returns [e ''c1'', e ''c0'']"
  by (simp add: distribute_embeddings_def embedding_batches_def batch_size_of_def slices.simps
        initial_tasks_def upt_rec delete_nth_def Let_def embed_with_def)


declare dispatch_loop.simps [simp del]

lemma mset_concat_update:
  assumes "k < length ts"
  shows "mset (concat (map f (ts[k := t]))) + mset (f (ts ! k)) = mset (concat (map f ts)) + mset (f t)"
  using assms
proof (induction ts arbitrary: k)
  case Nil
  then show ?case by simp
next
  case (Cons a ts)
  show ?case
  proof (cases k)
    case 0
    then show ?thesis by simp
  next
    case (Suc j)
    with Cons.prems have "j < length ts" by simp
    from Cons.IH [OF this] Suc show ?thesis by (simp add: ac_simps)
  qed
qed

lemma mset_concat_delete:
  assumes "k < length ts"
  shows "mset (concat (map f (delete_nth k ts))) + mset (f (ts ! k)) = mset (concat (map f ts))"
proof -
  from assms have "ts = take k ts @ ts ! k # drop (Suc k) ts"
    by (simp add: id_take_nth_drop)
  then have "mset (concat (map f ts)) =
               mset (concat (map f (take k ts @ ts ! k # drop (Suc k) ts)))" by simp
  then show ?thesis by (simp add: delete_nth_def)
qed

lemma dispatch_loop_permutes:
  assumes "\<And>actor batch. embed_chunks actor batch = Returns (map e batch)"
    and "\<forall>(actor, b) \<in> set actor_tasks. b < length batches"
    and "actor_tasks = [] \<longrightarrow> length batches \<le> next_batch_idx"
  shows "\<exists>vs. dispatch_loop embed_chunks batches actor_tasks next_batch_idx results completions
                 = Returns vs \<and>
              mset vs = mset results + mset (map e (pending batches actor_tasks next_batch_idx))"
  using assms
proof (induction embed_chunks batches actor_tasks next_batch_idx results completions
         rule: dispatch_loop.induct)
  case (1 embed_chunks batches actor_tasks next_batch_idx results completions)
  note emb = 1(3) and tasks_ok = 1(4) and drained = 1(5)
  show ?case
  proof (cases "actor_tasks = []")
    case True
    with drained show ?thesis
      by (simp add: pending_def dispatch_loop.simps [of _ _ "[]"])
  next
    case False
    define k where "k = (case completions of [] \<Rightarrow> 0 | c # cs \<Rightarrow> c mod length actor_tasks)"
    from False have klt: "k < length actor_tasks"
      unfolding k_def by (cases completions) auto
    obtain actor b where ab: "actor_tasks ! k = (actor, b)" by (cases "actor_tasks ! k")
    from klt ab tasks_ok have blt: "b < length batches"
      by (metis case_prodD nth_mem)
    then have nblt: "\<not> \<not> b < length batches" by simp
    have res: "embed_chunks actor (batches ! b) = Returns (map e (batches ! b))" by (rule emb)
    show ?thesis
    proof (cases "next_batch_idx < length batches")
      case True
      let ?tasks = "actor_tasks[k := (actor, next_batch_idx)]"
      have inv: "\<forall>(actor, b) \<in> set ?tasks. b < length batches"
        using tasks_ok True by (auto dest!: set_update_subset_insert [THEN subsetD])
      have ne: "?tasks = [] \<longrightarrow> length batches \<le> Suc next_batch_idx"
        using False by simp
      from 1(1) [OF False k_def refl ab [symmetric] nblt res True emb inv ne]
      obtain vs where
        run: "dispatch_loop embed_chunks batches ?tasks (Suc next_batch_idx)
                (results @ map e (batches ! b)) (tl completions) = Returns vs"
        and ms: "mset vs = mset (results @ map e (batches ! b)) +
                   mset (map e (pending batches ?tasks (Suc next_batch_idx)))"
        by auto
      have unf: "dispatch_loop embed_chunks batches actor_tasks next_batch_idx results completions
                   = Returns vs"
        using False ab blt True run res
        by (subst dispatch_loop.simps) (simp add: k_def [symmetric] Let_def)
      have dr: "drop next_batch_idx batches = batches ! next_batch_idx # drop (Suc next_batch_idx) batches"
        using True by (simp add: Cons_nth_drop_Suc)
      have "mset (concat (map (\<lambda>(actor, b). batches ! b) ?tasks)) + mset (batches ! b) =
              mset (concat (map (\<lambda>(actor, b). batches ! b) actor_tasks)) + mset (batches ! next_batch_idx)"
        using mset_concat_update [OF klt, of "\<lambda>(actor, b). batches ! b" "(actor, next_batch_idx)"] ab
        by simp
      then have "mset (pending batches ?tasks (Suc next_batch_idx)) + mset (batches ! b) =
                   mset (pending batches actor_tasks next_batch_idx)"
        by (simp add: pending_def dr ac_simps)
      then have "mset (map e (pending batches ?tasks (Suc next_batch_idx))) + mset (map e (batches ! b)) =
                   mset (map e (pending batches actor_tasks next_batch_idx))"
        by (metis image_mset_union mset_map)
      with ms have "mset vs = mset results + mset (map e (pending batches actor_tasks next_batch_idx))"
        by (simp add: ac_simps)
      with unf show ?thesis by blast
    next
      case nomore: False
      let ?tasks = "delete_nth k actor_tasks"
      have inv: "\<forall>(actor, b) \<in> set ?tasks. b < length batches"
        using tasks_ok by (auto simp: delete_nth_def dest: in_set_takeD in_set_dropD)
      have ne: "?tasks = [] \<longrightarrow> length batches \<le> next_batch_idx"
        using nomore by simp
      from 1(2) [OF False k_def refl ab [symmetric] nblt res nomore emb inv ne]
      obtain vs where
        run: "dispatch_loop embed_chunks batches ?tasks next_batch_idx
                (results @ map e (batches ! b)) (tl completions) = Returns vs"
        and ms: "mset vs = mset (results @ map e (batches ! b)) +
                   mset (map e (pending batches ?tasks next_batch_idx))"
        by auto
      have unf: "dispatch_loop embed_chunks batches actor_tasks next_batch_idx results completions
                   = Returns vs"
        using False ab blt nomore run res
        by (subst dispatch_loop.simps) (simp add: k_def [symmetric] Let_def)
      have "mset (concat (map (\<lambda>(actor, b). batches ! b) ?tasks)) + mset (batches ! b) =
              mset (concat (map (\<lambda>(actor, b). batches ! b) actor_tasks))"
        using mset_concat_delete [OF klt, of "\<lambda>(actor, b). batches ! b"] ab by simp
      then have "mset (pending batches ?tasks next_batch_idx) + mset (batches ! b) =
                   mset (pending batches actor_tasks next_batch_idx)"
        by (simp add: pending_def ac_simps)
      then have "mset (map e (pending batches ?tasks next_batch_idx)) + mset (map e (batches ! b)) =
                   mset (map e (pending batches actor_tasks next_batch_idx))"
        by (metis image_mset_union mset_map)
      with ms have "mset vs = mset results + mset (map e (pending batches actor_tasks next_batch_idx))"
        by (simp add: ac_simps)
      with unf show ?thesis by blast
    qed
  qed
qed


lemma initial_tasks_in_range:
  "\<forall>(actor, b) \<in> set (initial_tasks n_workers n_batches). b < n_batches"
  by (auto simp: initial_tasks_def)

lemma filter_upt_less: "filter (\<lambda>i. i < m) [0..<n] = [0..<min n m]"
proof (induction n)
  case 0
  then show ?case by simp
next
  case (Suc n)
  then show ?case by (cases "n < m") (auto simp: min_def)
qed

lemma concat_initial_batches:
  "concat (map (\<lambda>(actor, b). batches ! b) (initial_tasks n_workers (length batches)))
     = concat (take n_workers batches)"
proof -
  have "map (\<lambda>(actor, b). batches ! b) (initial_tasks n_workers (length batches))
          = map (\<lambda>i. batches ! i) [0..<min n_workers (length batches)]"
    by (simp add: initial_tasks_def filter_upt_less)
  also have "\<dots> = take (min n_workers (length batches)) batches"
    by (rule nth_equalityI) auto
  finally show ?thesis by (simp add: min_def)
qed


text \<open>
  What the scheduler does guarantee, for every completion order, when every worker
  embeds chunk by chunk: it returns, and the output holds exactly the embeddings of
  the input chunks, each as often as its chunk occurs; in particular it has the
  length of the input. Only the order is left to the completion order.
\<close>

lemma distribute_embeddings_permutes:
  assumes emb: "\<And>actor batch. embed_chunks actor batch = Returns (map e batch)"
    and workers: "0 < n_workers"
  shows "\<exists>vs. distribute_embeddings embed_chunks n_workers chunks completions = Returns vs \<and>
              mset vs = mset (map e chunks) \<and> length vs = length chunks"
proof (cases "length chunks \<le> 1 \<or> n_workers \<le> 1")
  case True
  with workers emb show ?thesis by (simp add: distribute_embeddings_def)
next
  case False
  let ?batches = "embedding_batches n_workers chunks"
  let ?tasks = "initial_tasks n_workers (length ?batches)"
  have cat: "concat ?batches = chunks"
    by (simp add: embedding_batches_def batch_size_of_def concat_slices)
  have "pending ?batches ?tasks n_workers = concat (take n_workers ?batches) @ concat (drop n_workers ?batches)"
    by (simp add: pending_def concat_initial_batches)
  also have "\<dots> = concat ?batches"
    by (metis append_take_drop_id concat_append)
  finally have pend: "pending ?batches ?tasks n_workers = chunks" using cat by simp
  have drained: "?tasks = [] \<longrightarrow> length ?batches \<le> n_workers"
    using workers by (auto simp: initial_tasks_def filter_upt_less)
  have "\<exists>vs. dispatch_loop embed_chunks ?batches ?tasks n_workers [] completions = Returns vs \<and>
              mset vs = mset [] + mset (map e (pending ?batches ?tasks n_workers))"
  proof (rule dispatch_loop_permutes)
    show "embed_chunks actor batch = Returns (map e batch)" for actor batch by (rule emb)
    show "\<forall>(actor, b) \<in> set ?tasks. b < length ?batches" by (rule initial_tasks_in_range)
    show "?tasks = [] \<longrightarrow> length ?batches \<le> n_workers" by (rule drained)
  qed
  then obtain vs where run: "dispatch_loop embed_chunks ?batches ?tasks n_workers [] completions = Returns vs"
    and ms: "mset vs = mset (map e chunks)"
    by (auto simp: pend)
  from ms have "length vs = length chunks" by (metis length_map size_mset)
  with False run ms show ?thesis by (simp add: distribute_embeddings_def Let_def)
qed

section \<open>Properties of the orchestrator and the run lifecycle\<close>












lemma find_map_update:
  assumes "\<And>row. rr_run_id (g row) = rr_run_id row"
  shows "find (\<lambda>row. rr_run_id row = rid) (map (\<lambda>row. if rr_run_id row = rid then g row else row) rows)
           = map_option g (find (\<lambda>row. rr_run_id row = rid) rows)"
  using assms by (induction rows) auto

lemma rr_run_id_apply_update: "rr_run_id (apply_update u row) = rr_run_id row"
  by (simp add: apply_update_def)

lemma get_run_update_run:
  "get_run (update_run rid u d) rid = map_option (apply_update u) (get_run d rid)"
  by (simp add: get_run_def update_run_def find_map_update rr_run_id_apply_update)

lemma rr_status_apply_update:
  "up_status u = Some v \<Longrightarrow> rr_status (apply_update u row) = Some v"
  by (simp add: apply_update_def set_col_def)

lemma end_run_sets_status:
  assumes run: "truthy (run_id rm)" and started: "start_time rm = Some t"
    and row: "get_run d (the (run_id rm)) = Some r"
  shows "\<exists>stats rm' d' r'. end_run now (rm, d) = (Returns stats, (rm', d')) \<and>
           status rm' = (if failed_files rm > 0 then ''completed_with_errors'' else ''completed'') \<and>
           get_run d' (the (run_id rm)) = Some r' \<and> rr_status r' = Some (status rm')"
proof -
  let ?st = "if failed_files rm > 0 then ''completed_with_errors'' else ''completed''"
  let ?rm2 = "rm\<lparr> end_time := Some now, status := ?st \<rparr>"
  let ?rec = "\<lparr> rec_run_id = the (run_id rm), rec_start_time = None,
                rec_end_time = Some now, rec_status = Some ?st,
                rec_total_files = Some 0,
                rec_processed_files = Some (processed_files rm),
                rec_failed_files = Some (failed_files rm),
                rec_skipped_files = Some (skipped_files rm),
                rec_already_processed_files = Some (already_processed_files rm),
                rec_total_processing_time = Some (now - t),
                rec_run_name = None, rec_collection = None, rec_embedding_model = None,
                rec_chunk_size = None, rec_chunk_overlap = None \<rparr>"
  let ?u = "\<lparr> up_end_time = Some now, up_status = Some ?st,
              up_processed_files = Some (processed_files rm),
              up_failed_files = Some (failed_files rm),
              up_skipped_files = Some (skipped_files rm),
              up_already_processed_files = Some (already_processed_files rm),
              up_total_processing_time = Some (now - t),
              up_run_record = Some ?rec \<rparr>"
  let ?d1 = "update_run (the (run_id rm)) ?u d"
  have g: "get_run ?d1 (the (run_id rm)) = Some (apply_update ?u r)"
    using row by (simp add: get_run_update_run)
  have st: "rr_status (apply_update ?u r) = Some ?st"
    by (rule rr_status_apply_update) simp
  from g obtain stats where stats: "get_run_stats now (?rm2, ?d1) = Returns stats"
    using run started by (simp add: get_run_stats_def get_run_record_def Let_def)
  have "end_run now (rm, d) = (Returns stats, (?rm2, ?d1))"
    using run started stats by (simp add: end_run_def Let_def)
  with g st show ?thesis by auto
qed

lemma mark_run_failed_is_overwritten:
  assumes rm: "run_manager im = Some rm" and run: "truthy (run_id rm)"
    and started: "start_time rm = Some t"
    and row: "get_run (db_manager im) (the (run_id rm)) = Some r"
  shows "\<exists>rm' r'. run_manager (mark_run_failed now im) = Some rm' \<and>
           status rm' = (if failed_files rm > 0 then ''completed_with_errors'' else ''completed'') \<and>
           get_run (db_manager (mark_run_failed now im)) (the (run_id rm)) = Some r' \<and>
           rr_status r' = Some (status rm') \<and> rr_status r' \<noteq> Some ''failed''"
proof -
  let ?rm = "rm\<lparr> status := ''failed'' \<rparr>"
  have "truthy (run_id ?rm)" "start_time ?rm = Some t"
    "get_run (db_manager im) (the (run_id ?rm)) = Some r"
    using run started row by simp_all
  from end_run_sets_status [OF this, of now]
  obtain stats rm' d' r' where
    e: "end_run now (?rm, db_manager im) = (Returns stats, (rm', d'))"
    and s: "status rm' = (if failed_files rm > 0 then ''completed_with_errors'' else ''completed'')"
    and g: "get_run d' (the (run_id rm)) = Some r'" "rr_status r' = Some (status rm')"
    by auto
  from rm run e have "mark_run_failed now im = im\<lparr> run_manager := Some rm', db_manager := d' \<rparr>"
    by (simp add: mark_run_failed_def)
  with s g show ?thesis by auto
qed


end
